theory Spec2Isabelle
  imports
    Main
    "HOL-Library.Word"
    "HOL-Library.Char_ord"
    "HOL-Library.List_Lexorder"
    "HOL-Library.Multiset"
    "HOL-Library.AList"
begin

section \<open>Strings, bytes and the built-in string operations\<close>

text \<open>
  A script string is a sequence of UTF-16 code units. The development covers the strings
  whose code units are below 256 (ISO-8859-1, which contains ASCII): a \<^typ>\<open>char\<close> is one
  code unit, \<^typ>\<open>string\<close> a script string. The order on strings (\<open><\<close>, \<open>>\<close> of the
  script) is the lexicographic order on code units, which is the order of
  \<open>List_Lexorder\<close> over \<open>Char_ord\<close>.
\<close>

type_synonym byte = "8 word"

definition code :: "char \<Rightarrow> nat" where
  "code c = of_char c"

definition in_range :: "char \<Rightarrow> char \<Rightarrow> char \<Rightarrow> bool" where
  "in_range lo hi c \<longleftrightarrow> code lo \<le> code c \<and> code c \<le> code hi"

definition is_digit :: "char \<Rightarrow> bool" where
  \<comment> \<open>the class \<open>\d\<close> of a regular expression\<close>
  "is_digit c \<longleftrightarrow> in_range (CHR ''0'') (CHR ''9'') c"

definition is_alpha :: "char \<Rightarrow> bool" where
  "is_alpha c \<longleftrightarrow> in_range (CHR ''a'') (CHR ''z'') c \<or> in_range (CHR ''A'') (CHR ''Z'') c"

definition is_space :: "char \<Rightarrow> bool" where
  \<comment> \<open>white space and line terminators below 256: the class \<open>\s\<close> and what \<open>trim\<close> strips
      (TAB, LF, VT, FF, CR, SP, NBSP)\<close>
  "is_space c \<longleftrightarrow> code c \<in> {9, 10, 11, 12, 13, 32, 160}"

definition trim :: "string \<Rightarrow> string" where
  "trim s = rev (dropWhile is_space (rev (dropWhile is_space s)))"

definition toLowerCase_char :: "char \<Rightarrow> char" where
  \<comment> \<open>A-Z, and the ISO-8859-1 capitals 0xC0-0xDE without the multiplication sign 0xD7\<close>
  "toLowerCase_char c =
     (let n = code c
      in if (65 \<le> n \<and> n \<le> 90) \<or> (192 \<le> n \<and> n \<le> 222 \<and> n \<noteq> 215)
         then char_of (n + 32) else c)"

definition toLowerCase :: "string \<Rightarrow> string" where
  "toLowerCase s = map toLowerCase_char s"

definition toUpperCase_char :: "char \<Rightarrow> char" where
  \<comment> \<open>a-z only: \<open>toUpperCase\<close> is applied to the literals of \<open>HttpMethod\<close> alone\<close>
  "toUpperCase_char c = (let n = code c in if 97 \<le> n \<and> n \<le> 122 then char_of (n - 32) else c)"

definition toUpperCase :: "string \<Rightarrow> string" where
  "toUpperCase s = map toUpperCase_char s"

fun split :: "char \<Rightarrow> string \<Rightarrow> string list" where
  "split d [] = [[]]"
| "split d (c # cs) =
     (if c = d then [] # split d cs
      else (case split d cs of [] \<Rightarrow> [[c]] | p # ps \<Rightarrow> (c # p) # ps))"

fun join :: "string \<Rightarrow> string list \<Rightarrow> string" where
  "join sep [] = []"
| "join sep [x] = x"
| "join sep (x # y # ys) = x @ sep @ join sep (y # ys)"

text \<open>
  \<open>s.replace(/\s{2,}/g, ' ')\<close>: scanning from the left, every maximal run of two or more
  white-space characters becomes one space; a single white-space character stays as it is.
\<close>

function replace_spaces :: "string \<Rightarrow> string" where
  "replace_spaces [] = []"
| "replace_spaces (c # cs) =
     (if is_space c \<and> takeWhile is_space cs \<noteq> []
      then CHR '' '' # replace_spaces (dropWhile is_space cs)
      else c # replace_spaces cs)"
  by pat_completeness auto
termination
  by (relation "measure length") (auto simp: length_dropWhile_le less_Suc_eq_le)

text \<open>A string has no white-space run when no two neighbours are both white space.\<close>

fun no_space_run :: "string \<Rightarrow> bool" where
  "no_space_run (c # d # cs) = (\<not> (is_space c \<and> is_space d) \<and> no_space_run (d # cs))"
| "no_space_run _ = True"

subsection \<open>UTF-8 and hexadecimal\<close>

definition utf8_char :: "char \<Rightarrow> byte list" where
  "utf8_char c =
     (let n = code c
      in if n < 128 then [of_nat n] else [of_nat (192 + n div 64), of_nat (128 + n mod 64)])"

definition utf8 :: "string \<Rightarrow> byte list" where
  "utf8 s = concat (map utf8_char s)"

definition hex_upper :: "byte \<Rightarrow> string" where
  "hex_upper b = [''0123456789ABCDEF'' ! (unat b div 16), ''0123456789ABCDEF'' ! (unat b mod 16)]"

definition hex_lower :: "byte \<Rightarrow> string" where
  "hex_lower b = [''0123456789abcdef'' ! (unat b div 16), ''0123456789abcdef'' ! (unat b mod 16)]"

definition bytesToHex :: "byte list \<Rightarrow> string" where
  "bytesToHex bs = concat (map hex_lower bs)"

subsection \<open>\<open>encodeURIComponent\<close> and \<open>encodeURI\<close>\<close>

definition uri_mark :: "char \<Rightarrow> bool" where
  "uri_mark c \<longleftrightarrow> c \<in> set ''-_.!~*'' \<or> c = CHR 0x27 \<or> c \<in> set ''()''"

definition uri_unescaped :: "char \<Rightarrow> bool" where
  \<comment> \<open>the characters \<open>encodeURIComponent\<close> leaves alone\<close>
  "uri_unescaped c \<longleftrightarrow> is_alpha c \<or> is_digit c \<or> uri_mark c"

definition uri_reserved :: "char \<Rightarrow> bool" where
  "uri_reserved c \<longleftrightarrow> c \<in> set '';/?:@&=+$,''"

definition percent_encode :: "(char \<Rightarrow> bool) \<Rightarrow> char \<Rightarrow> string" where
  "percent_encode keep c =
     (if keep c then [c] else concat (map (\<lambda>b. CHR ''%'' # hex_upper b) (utf8_char c)))"

definition encodeURIComponent :: "string \<Rightarrow> string" where
  "encodeURIComponent s = concat (map (percent_encode uri_unescaped) s)"

definition encodeURI :: "string \<Rightarrow> string" where
  "encodeURI s =
     concat (map (percent_encode (\<lambda>c. uri_unescaped c \<or> uri_reserved c \<or> c = CHR ''#'')) s)"

subsection \<open>\<open>Array.prototype.sort\<close> with a comparison function\<close>

text \<open>
  The sort of the script is stable (ECMAScript 2019): an element is inserted before the
  first element that does not compare below it.
\<close>

fun sort_insert :: "('a \<Rightarrow> 'a \<Rightarrow> int) \<Rightarrow> 'a \<Rightarrow> 'a list \<Rightarrow> 'a list" where
  "sort_insert cmp x [] = [x]"
| "sort_insert cmp x (y # ys) = (if cmp x y \<le> 0 then x # y # ys else y # sort_insert cmp x ys)"

definition array_sort :: "('a \<Rightarrow> 'a \<Rightarrow> int) \<Rightarrow> 'a list \<Rightarrow> 'a list" where
  "array_sort cmp xs = foldr (sort_insert cmp) xs []"

subsection \<open>Objects as property lists\<close>

text \<open>
  An object used as a dictionary is the list of its own properties in enumeration order
  (insertion order, for keys that are not array indices); a well-formed one has no key
  twice. \<open>obj[k] = v\<close> is \<^const>\<open>AList.update\<close> (the value is replaced in place, a new
  key goes to the end) and \<open>delete obj[k]\<close> is \<^const>\<open>AList.delete\<close>. Reading \<open>obj[k]\<close>
  finds an own property first and then a property of \<open>Object.prototype\<close>: for a key
  that is none of the names of \<open>Object.prototype\<close> it is \<^const>\<open>map_of\<close>.
\<close>

type_synonym 'v object = "(string \<times> 'v) list"

definition Object_prototype_names :: "string list" where
  "Object_prototype_names =
     [''constructor'', ''__defineGetter__'', ''__defineSetter__'', ''hasOwnProperty'',
      ''__lookupGetter__'', ''__lookupSetter__'', ''isPrototypeOf'', ''propertyIsEnumerable'',
      ''toString'', ''valueOf'', ''__proto__'', ''toLocaleString'']"

datatype 'v property =
    Own 'v       \<comment> \<open>an own property, with its value\<close>
  | Inherited    \<comment> \<open>a function or an object of \<open>Object.prototype\<close>: true, and not a string\<close>
  | Undefined

definition property :: "'v object \<Rightarrow> string \<Rightarrow> 'v property" where
  \<comment> \<open>\<open>obj[k]\<close>\<close>
  "property obj k =
     (case map_of obj k of
        Some v \<Rightarrow> Own v
      | None \<Rightarrow> if k \<in> set Object_prototype_names then Inherited else Undefined)"

definition entries :: "'v object \<Rightarrow> (string \<times> 'v) list" where
  \<comment> \<open>\<open>Object.keys(obj).map(key => [key, obj[key]])\<close>\<close>
  "entries obj = obj"

section \<open>The platform\<close>

text \<open>
  What the script takes from its host and its libraries, none of it in the repository:
  the two primitives of the \<open>Crypto\<close> library on bytes, \<open>JSON\<close>, the base-64 functions of
  \<open>Utilities\<close> and the transport \<open>UrlFetchApp.fetch\<close>. They are parameters of the model.
\<close>

datatype json =
    JNull
  | JBool bool
  | JNumber int
  | JString string
  | JArray "json list"
  | JObject "(string \<times> json) list"

datatype error =
    Error string            \<comment> \<open>\<open>new Error(msg)\<close> of \<open>assert\<close>\<close>
  | InvocationError "json option"  \<comment> \<open>\<open>new Error(message)\<close> of \<open>Lambda.invoke\<close>; \<open>None\<close> is \<open>undefined\<close>\<close>
  | TypeError               \<comment> \<open>a property of \<open>null\<close> is read, or what is called is no function\<close>
  | SyntaxError             \<comment> \<open>\<open>JSON.parse\<close> rejects the text\<close>
  | Base64Error             \<comment> \<open>\<open>Utilities.base64Decode\<close> rejects the text\<close>
  | TransportError string   \<comment> \<open>whatever \<open>UrlFetchApp.fetch\<close> throws\<close>

record fetchOptions =
  fetch_method :: string
  fetch_headers :: "string object"
  muteHttpExceptions :: bool
  fetch_payload :: string

record HTTPResponse =
  getResponseCode :: int
  getAllHeaders :: "string object"
  getContentText :: string

record platform =
  HmacSHA256_raw :: "byte list \<Rightarrow> byte list \<Rightarrow> byte list"  \<comment> \<open>key, then message\<close>
  SHA256_raw :: "byte list \<Rightarrow> byte list"
  JSON_stringify :: "json \<Rightarrow> string"
  JSON_parse :: "string \<Rightarrow> json option"
  base64Encode :: "string \<Rightarrow> string"
  base64Decode :: "string \<Rightarrow> byte list option"
  UrlFetchApp_fetch :: "string \<Rightarrow> fetchOptions \<Rightarrow> error + HTTPResponse"

subsection \<open>The \<open>Crypto\<close> facade\<close>

text \<open>
  Modelled from the spec: the \<open>Crypto\<close> library is not in the repository.
  \<open>Crypto.HmacSHA256(message, key, options)\<close> takes the message and the key as a string or
  as bytes, a string standing for its UTF-8 bytes; with \<open>asBytes: true\<close> the result is the
  raw bytes, otherwise their lowercase hexadecimal text. \<open>Crypto.SHA256(message)\<close> is the
  hexadecimal text of the digest.
\<close>

datatype data = Str string | Bytes "byte list"

fun to_bytes :: "data \<Rightarrow> byte list" where
  "to_bytes (Str s) = utf8 s"
| "to_bytes (Bytes bs) = bs"

definition HmacSHA256 :: "platform \<Rightarrow> data \<Rightarrow> data \<Rightarrow> bool \<Rightarrow> data" where
  "HmacSHA256 P message key asBytes =
     (let h = HmacSHA256_raw P (to_bytes key) (to_bytes message)
      in if asBytes then Bytes h else Str (bytesToHex h))"

definition SHA256 :: "platform \<Rightarrow> string \<Rightarrow> string" where
  "SHA256 P message = bytesToHex (SHA256_raw P (utf8 message))"

section \<open>The signing module (\<open>main.ts\<close>)\<close>

subsection \<open>\<open>calculateSignature\<close>\<close>

definition calculateSignature :: "platform \<Rightarrow> string \<Rightarrow> string \<Rightarrow> string \<Rightarrow> string \<Rightarrow> string \<Rightarrow> data" where
  "calculateSignature P key dateStamp regionName serviceName stringToSign =
     (let kDate = HmacSHA256 P (Str dateStamp) (Str (''AWS4'' @ key)) True;
          kRegion = HmacSHA256 P (Str regionName) kDate True;
          kService = HmacSHA256 P (Str serviceName) kRegion True;
          kSigning = HmacSHA256 P (Str ''aws4_request'') kService True
      in HmacSHA256 P (Str stringToSign) kSigning False)"

text \<open>The derivation as the specification words it, on bytes, for comparison.\<close>

definition deriveSigningKey_spec ::
  "(byte list \<Rightarrow> byte list \<Rightarrow> byte list) \<Rightarrow> string \<Rightarrow> string \<Rightarrow> string \<Rightarrow> string \<Rightarrow> byte list" where
  "deriveSigningKey_spec hmac secretKey dateStampShort reg srv =
     (let key0 = utf8 (''AWS4'' @ secretKey);
          kDate = hmac key0 (utf8 dateStampShort);
          kRegion = hmac kDate (utf8 reg);
          kService = hmac kRegion (utf8 srv)
      in hmac kService (utf8 ''aws4_request''))"

definition signature_spec :: "(byte list \<Rightarrow> byte list \<Rightarrow> byte list) \<Rightarrow> string \<Rightarrow> byte list \<Rightarrow> string" where
  "signature_spec hmac stringToSign signingKey = bytesToHex (hmac signingKey (utf8 stringToSign))"

subsection \<open>Dates\<close>

text \<open>
  A \<open>Date\<close> is represented by the text \<open>toISOString()\<close> gives for it.
  \<open>DATE_VALUES_REGEX.exec\<close> finds the leftmost place where
  \<open>(\d{4})-(\d{2})-(\d{2})T(\d{2}):(\d{2}):(\d{2})\<close> matches and returns the six groups, or
  \<open>null\<close>.
\<close>

definition all_digits :: "string \<Rightarrow> bool" where
  "all_digits s = list_all is_digit s"

definition DATE_VALUES_match_here :: "string \<Rightarrow> string list option" where
  "DATE_VALUES_match_here s =
     (let g1 = take 4 s; g2 = take 2 (drop 5 s); g3 = take 2 (drop 8 s);
          g4 = take 2 (drop 11 s); g5 = take 2 (drop 14 s); g6 = take 2 (drop 17 s)
      in if 19 \<le> length s \<and> all_digits (g1 @ g2 @ g3 @ g4 @ g5 @ g6)
            \<and> take 1 (drop 4 s) = ''-'' \<and> take 1 (drop 7 s) = ''-'' \<and> take 1 (drop 10 s) = ''T''
            \<and> take 1 (drop 13 s) = '':'' \<and> take 1 (drop 16 s) = '':''
         then Some [g1, g2, g3, g4, g5, g6] else None)"

fun DATE_VALUES_REGEX_exec :: "string \<Rightarrow> string list option" where
  "DATE_VALUES_REGEX_exec [] = None"
| "DATE_VALUES_REGEX_exec (c # cs) =
     (case DATE_VALUES_match_here (c # cs) of
        Some m \<Rightarrow> Some m
      | None \<Rightarrow> DATE_VALUES_REGEX_exec cs)"

definition getCanonicalFullDate :: "string \<Rightarrow> error + string" where
  "getCanonicalFullDate isoString =
     (case DATE_VALUES_REGEX_exec isoString of
        None \<Rightarrow> Inl TypeError
      | Some m \<Rightarrow> Inr (m ! 0 @ m ! 1 @ m ! 2 @ ''T'' @ m ! 3 @ m ! 4 @ m ! 5 @ ''Z''))"

definition getCanonicalShortDate :: "string \<Rightarrow> error + string" where
  "getCanonicalShortDate isoString =
     (case DATE_VALUES_REGEX_exec isoString of
        None \<Rightarrow> Inl TypeError
      | Some m \<Rightarrow> Inr (m ! 0 @ m ! 1 @ m ! 2))"

subsection \<open>\<open>getCanonicalQueryString\<close>\<close>

text \<open>
  A query value is a string or a number, or \<open>null\<close> or \<open>undefined\<close>. A number is
  represented by the text \<open>String\<close> gives it: \<open>2\<close> by \<open>"2"\<close>, \<open>0.5\<close> by \<open>"0.5"\<close>,
  \<open>1e21\<close> by \<open>"1e+21"\<close>.
\<close>

datatype qvalue = QUndefined | QNull | QString string | QNumber string

fun qvalue_toString :: "qvalue \<Rightarrow> string" where
  "qvalue_toString (QString s) = s"
| "qvalue_toString (QNumber text) = text"
| "qvalue_toString QNull = ''null''"
| "qvalue_toString QUndefined = ''undefined''"

definition compare_strings :: "string \<Rightarrow> string \<Rightarrow> int" where
  \<comment> \<open>\<open>(a, b) => { if (a === b) return 0; return a > b ? 1 : -1 }\<close>\<close>
  "compare_strings a b = (if a = b then 0 else if a > b then 1 else - 1)"

definition query_part :: "string \<times> qvalue \<Rightarrow> string" where
  "query_part part =
     (let val = (if snd part \<noteq> QNull \<and> snd part \<noteq> QUndefined then snd part else QString [])
      in encodeURIComponent (trim (fst part)) @ ''='' @ encodeURIComponent (qvalue_toString val))"

text \<open>
  The \<open>for\<close>-\<open>in\<close> loop of lines 82 to 85 calls \<open>query.hasOwnProperty(key)\<close> for every
  key. When the query has an own key \<open>hasOwnProperty\<close>, what is called is the value of
  that key, a query value and no function: the first turn of the loop throws. Otherwise
  the function of \<open>Object.prototype\<close> is called, every own key passes, and the loop
  pushes \<open>[key, query[key]]\<close> for each.
\<close>

definition own_parts :: "'v object \<Rightarrow> error + (string \<times> 'v) list" where
  "own_parts query =
     (case property query ''hasOwnProperty'' of
        Own v \<Rightarrow> Inl TypeError
      | _ \<Rightarrow> Inr query)"

definition getCanonicalQueryString :: "qvalue object \<Rightarrow> error + string" where
  "getCanonicalQueryString query =
     (case own_parts query of
        Inl e \<Rightarrow> Inl e
      | Inr queryParts \<Rightarrow>
          Inr (join ''&'' (array_sort compare_strings (map query_part queryParts))))"

subsection \<open>\<open>getCanonicalRequestHash\<close>\<close>

record CanonicalRequestHash =
  hashedCanonicalRequest :: string
  signedHeaders :: string

definition compare_keys :: "string \<times> string \<Rightarrow> string \<times> string \<Rightarrow> int" where
  \<comment> \<open>\<open>(a, b) => { if (a[0] === b[0]) return 0; else return a[0] > b[0] ? 1 : -1 }\<close>\<close>
  "compare_keys a b = (if fst a = fst b then 0 else if fst a > fst b then 1 else - 1)"

definition canonical_header :: "string \<times> string \<Rightarrow> string \<times> string" where
  "canonical_header header = (toLowerCase (trim (fst header)), replace_spaces (trim (snd header)))"

definition sorted_headers :: "string object \<Rightarrow> (string \<times> string) list" where
  "sorted_headers headers = array_sort compare_keys (map canonical_header (entries headers))"

definition normalizedPath :: "string \<Rightarrow> string" where
  "normalizedPath path = join ''/'' (map encodeURIComponent (split (CHR ''/'') path))"

definition NL :: string where
  "NL = [CHR 0x0A]"

definition canonicalHeadersStr :: "string object \<Rightarrow> string" where
  \<comment> \<open>the pushes of \<open>forEach\<close> into \<open>canonicalHeaders\<close>, joined by the empty string\<close>
  "canonicalHeadersStr headers =
     join [] (map (\<lambda>header. fst header @ '':'' @ snd header @ NL) (sorted_headers headers))"

definition signedHeadersStr :: "string object \<Rightarrow> string" where
  "signedHeadersStr headers = join '';'' (map fst (sorted_headers headers))"

definition getCanonicalRequestHash ::
  "platform \<Rightarrow> string \<Rightarrow> string \<Rightarrow> string object \<Rightarrow> string \<Rightarrow> string \<Rightarrow> CanonicalRequestHash" where
  "getCanonicalRequestHash P method path headers queryString payloadString =
     (let canonicalHeadersStr = canonicalHeadersStr headers;
          signedHeadersStr = signedHeadersStr headers;
          normalizedPath = normalizedPath path;
          canonicalRequest =
            join NL [method, normalizedPath, queryString, canonicalHeadersStr,
                     signedHeadersStr, SHA256 P payloadString]
      in \<lparr>hashedCanonicalRequest = SHA256 P canonicalRequest, signedHeaders = signedHeadersStr\<rparr>)"

subsection \<open>Configuration (\<open>config.ts\<close>)\<close>

text \<open>
  The interface declares the two credentials and the region as strings. The object is
  exported and assignable by the embedding script, and \<open>request\<close> tests what it reads
  against \<open>null\<close>: the run-time value is modelled, \<open>None\<close> being \<open>null\<close> or \<open>undefined\<close>.
\<close>

record Credentials =
  config_accessKeyId :: "string option"
  config_secretAccessKey :: "string option"

record AWSConfig =
  apiVersions :: "string object"
  credentials :: Credentials
  config_region :: "string option"

definition config :: AWSConfig where
  "config =
     \<lparr>apiVersions = [(''lambda'', ''2015-03-31'')],
      credentials = \<lparr>config_accessKeyId = Some [], config_secretAccessKey = Some []\<rparr>,
      config_region = Some ''us-west-1''\<rparr>"

subsection \<open>\<open>request\<close>\<close>

definition HASH_ALGORITHM :: string where
  "HASH_ALGORITHM = ''AWS4-HMAC-SHA256''"

definition AWS_SINGLE_ENDPOINT :: "string object" where
  "AWS_SINGLE_ENDPOINT =
     [(''cloudfront'', ''cloudfront.amazonaws.com''),
      (''health'', ''health.us-east-1.amazonaws.com''),
      (''iam'', ''iam.amazonaws.com''),
      (''importexport'', ''importexport.amazonaws.com''),
      (''shield'', ''shield.us-east-1.amazonaws.com''),
      (''waf'', ''waf.amazonaws.com'')]"

text \<open>
  The host of lines 258 to 260. A string is true when it is not empty. For a service
  named like a property of \<open>Object.prototype\<close>, \<open>AWS_SINGLE_ENDPOINT[service]\<close> is that
  property, which is true: the host is then no string, \<open>None\<close> here.
\<close>

definition resolve_host :: "string \<Rightarrow> string \<Rightarrow> string option" where
  "resolve_host service region =
     (case property AWS_SINGLE_ENDPOINT service of
        Own endpoint \<Rightarrow>
          if endpoint \<noteq> [] then Some endpoint
          else Some (service @ ''.'' @ region @ ''.amazonaws.com'')
      | Inherited \<Rightarrow> None
      | Undefined \<Rightarrow> Some (service @ ''.'' @ region @ ''.amazonaws.com''))"

datatype HttpMethod = Get | Delete | Patch | Post | Put

fun HttpMethod_text :: "HttpMethod \<Rightarrow> string" where
  "HttpMethod_text Get = ''get''"
| "HttpMethod_text Delete = ''delete''"
| "HttpMethod_text Patch = ''patch''"
| "HttpMethod_text Post = ''post''"
| "HttpMethod_text Put = ''put''"

datatype payload_value = PayloadString string | PayloadObject json

record RequestParams =
  accessKeyId :: "string option"
  secretAccessKey :: "string option"
  service :: string
  region :: "string option"
  path :: "string option"
  query :: "qvalue object option"
  "method" :: "HttpMethod option"
  headers :: "string object option"
  payload :: "payload_value option"

definition nullish :: "'a option \<Rightarrow> 'a option \<Rightarrow> 'a option" where
  \<comment> \<open>\<open>a ?? b\<close>\<close>
  "nullish a b = (case a of Some x \<Rightarrow> Some x | None \<Rightarrow> b)"

definition assert :: "bool \<Rightarrow> string \<Rightarrow> error + unit" where
  "assert cond msg = (if \<not> cond then Inl (Error msg) else Inr ())"

function decimal :: "nat \<Rightarrow> string" where
  "decimal n = (if n < 10 then [''0123456789'' ! n] else decimal (n div 10) @ [''0123456789'' ! (n mod 10)])"
  by pat_completeness auto
termination
  by (relation "measure id") auto

declare decimal.simps [simp del]

fun data_toString :: "data \<Rightarrow> string" where
  \<comment> \<open>a string as it is; an array of bytes as its numbers in decimal, joined by commas\<close>
  "data_toString (Str s) = s"
| "data_toString (Bytes bs) = join '','' (map (\<lambda>b. decimal (unat b)) bs)"

text \<open>
  \<open>request\<close> up to its last line is modelled in two parts. The second part (lines 247
  to 334, without the two date lines) takes the values resolved so far and gives the URI
  and the options handed to \<open>UrlFetchApp.fetch\<close>. It throws where
  \<open>getCanonicalQueryString\<close> throws (line 272), and in \<open>getCanonicalRequestHash\<close>
  (line 280) when the host is no string: \<open>header[1].trim\<close> is no function then.
\<close>

definition signed_fetch_call ::
  "platform \<Rightarrow> RequestParams \<Rightarrow> string \<Rightarrow> string \<Rightarrow> string \<Rightarrow> string \<Rightarrow> string \<Rightarrow> string
     \<Rightarrow> error + string \<times> fetchOptions" where
  "signed_fetch_call P params =
     (\<lambda>accessKeyId secretAccessKey service region dateStringFull dateStringShort.
      let path = (case path params of Some p \<Rightarrow> p | None \<Rightarrow> ''/'');
          query = (case query params of Some q \<Rightarrow> q | None \<Rightarrow> []); method =
            toUpperCase (HttpMethod_text (case method params of Some m \<Rightarrow> m | None \<Rightarrow> Get));
          headers = (case headers params of Some h \<Rightarrow> h | None \<Rightarrow> []);
          payload = (case payload params of Some p \<Rightarrow> p | None \<Rightarrow> PayloadString []);
          host = resolve_host service region;
          path = (if take 1 path \<noteq> ''/'' then ''/'' @ path else path);
          payloadString = (case payload of PayloadString s \<Rightarrow> s | PayloadObject j \<Rightarrow> JSON_stringify P j)
      in case getCanonicalQueryString query of
        Inl e \<Rightarrow> Inl e
      | Inr queryString \<Rightarrow>
     (case host of
        None \<Rightarrow> Inl TypeError
      | Some host \<Rightarrow>
     (let headers = AList.update ''Host'' host headers;
          headers = AList.update ''X-Amz-Date'' dateStringFull headers;
          temp = getCanonicalRequestHash P method path headers queryString payloadString;
          hashedCanonicalRequest = hashedCanonicalRequest temp;
          signedHeaders = signedHeaders temp;
          credentialScope = dateStringShort @ ''/'' @ region @ ''/'' @ service @ ''/aws4_request'';
          stringToSign = join NL [HASH_ALGORITHM, dateStringFull, credentialScope, hashedCanonicalRequest];
          signature = calculateSignature P secretAccessKey dateStringShort region service stringToSign;
          headers =
            AList.update ''Authorization''
              (join '', ''
                 [HASH_ALGORITHM @ '' Credential='' @ accessKeyId @ ''/'' @ credentialScope,
                  ''SignedHeaders='' @ signedHeaders,
                  ''Signature='' @ data_toString signature])
              headers;
          headers = AList.delete ''Host'' headers;
          fetchOptions =
            \<lparr>fetch_method = method, fetch_headers = headers,
             muteHttpExceptions = True, fetch_payload = payloadString\<rparr>;
          uri = ''https://'' @ host @ path @ (if queryString \<noteq> [] then ''?'' @ queryString else [])
      in Inr (uri, fetchOptions))))"

text \<open>
  The first part: the assertions (the one on the service cannot fail, the service being
  a string already) and the two date functions. \<open>curDate\<close> is the ISO
  text of \<open>getCurrentDate()\<close>. The result is the call made to the transport, or the error
  thrown before it.
\<close>

definition request_fetch_call ::
  "platform \<Rightarrow> AWSConfig \<Rightarrow> string \<Rightarrow> RequestParams \<Rightarrow> error + string \<times> fetchOptions" where
  "request_fetch_call P cfg curDate params =
     (let accessKeyId = nullish (accessKeyId params) (config_accessKeyId (credentials cfg))
      in case assert (accessKeyId \<noteq> None) ''AWS access key id not specified'' of
        Inl e \<Rightarrow> Inl e
      | Inr _ \<Rightarrow>
     (let secretAccessKey =
            nullish (secretAccessKey params) (config_secretAccessKey (credentials cfg))
      in case assert (secretAccessKey \<noteq> None) ''AWS secret access key not specified'' of
        Inl e \<Rightarrow> Inl e
      | Inr _ \<Rightarrow>
     (let service = toLowerCase (service params)
      in case assert True ''AWS service not specified'' of
        Inl e \<Rightarrow> Inl e
      | Inr _ \<Rightarrow>
     (let region =
            (case region params of
               Some r \<Rightarrow> if r \<noteq> [] then Some (toLowerCase r) else config_region cfg
             | None \<Rightarrow> config_region cfg)
      in case assert (region \<noteq> None) ''AWS region not specified'' of
        Inl e \<Rightarrow> Inl e
      | Inr _ \<Rightarrow>
     (case getCanonicalFullDate curDate of
        Inl e \<Rightarrow> Inl e
      | Inr dateStringFull \<Rightarrow>
     (case getCanonicalShortDate curDate of
        Inl e \<Rightarrow> Inl e
      | Inr dateStringShort \<Rightarrow>
          signed_fetch_call P params (the accessKeyId) (the secretAccessKey) service (the region)
            dateStringFull dateStringShort))))))"

text \<open>
  The world \<open>request\<close> runs in records the calls made to the transport, in order.
\<close>

record world =
  fetch_calls :: "(string \<times> fetchOptions) list"

definition request ::
  "platform \<Rightarrow> AWSConfig \<Rightarrow> string \<Rightarrow> RequestParams \<Rightarrow> world \<Rightarrow> (error + HTTPResponse) \<times> world" where
  "request P cfg curDate params w =
     (case request_fetch_call P cfg curDate params of
        Inl e \<Rightarrow> (Inl e, w)
      | Inr (uri, fetchOptions) \<Rightarrow>
          (UrlFetchApp_fetch P uri fetchOptions,
           w\<lparr>fetch_calls := fetch_calls w @ [(uri, fetchOptions)]\<rparr>))"

section \<open>The function-invocation client (\<open>Lambda.invoke\<close>)\<close>

datatype InvocationType = Event | RequestResponse | DryRun

fun InvocationType_text :: "InvocationType \<Rightarrow> string" where
  "InvocationType_text Event = ''Event''"
| "InvocationType_text RequestResponse = ''RequestResponse''"
| "InvocationType_text DryRun = ''DryRun''"

datatype LogType = LogType_None | LogType_Tail

fun LogType_text :: "LogType \<Rightarrow> string" where
  "LogType_text LogType_None = ''None''"
| "LogType_text LogType_Tail = ''Tail''"

record LambdaInvokeParams =
  ClientContext :: "json option"
  FunctionName :: string
  Payload :: payload_value
  InvocationType :: "InvocationType option"
  LogType :: "LogType option"
  Qualifier :: "string option"

record InvokeResult =
  StatusCode :: int
  ExecutedVersion :: "string option"
  LogResult :: "byte list option"
  result_Payload :: json

fun truthy :: "json option \<Rightarrow> bool" where
  "truthy None = False"
| "truthy (Some JNull) = False"
| "truthy (Some (JBool b)) = b"
| "truthy (Some (JNumber n)) = (n \<noteq> 0)"
| "truthy (Some (JString s)) = (s \<noteq> [])"
| "truthy (Some (JArray _)) = True"
| "truthy (Some (JObject _)) = True"

fun optional_property :: "json \<Rightarrow> string \<Rightarrow> json option" where
  \<comment> \<open>\<open>value?.name\<close> for a name no built-in prototype defines; \<open>None\<close> is \<open>undefined\<close>\<close>
  "optional_property (JObject props) name = map_of props name"
| "optional_property _ name = None"

definition or_else :: "json option \<Rightarrow> json option \<Rightarrow> json option" where
  \<comment> \<open>\<open>a || b\<close>\<close>
  "or_else a b = (if truthy a then a else b)"

text \<open>
  \<open>invoke\<close> in its three steps: the request it builds (lines 384 to 420), the call of
  \<open>request\<close>, and the reading of the response (lines 424 to 445). The \<open>console.error\<close>
  line, which only writes the result to the log before the error is thrown, is left out.
\<close>

definition invoke_requestParams :: "platform \<Rightarrow> AWSConfig \<Rightarrow> LambdaInvokeParams \<Rightarrow> RequestParams" where
  "invoke_requestParams P cfg params =
     (let path =
            ''/'' @ (case map_of (apiVersions cfg) ''lambda'' of Some v \<Rightarrow> v | None \<Rightarrow> ''undefined'')
              @ ''/functions/'' @ encodeURI (FunctionName params) @ ''/invocations'';
          headers = [(''Content-Type'', ''application/json; charset=utf-8'')];
          query = [];
          query =
            (case ClientContext params of
               Some c \<Rightarrow>
                 if truthy (Some c)
                 then AList.update ''ClientContext'' (QString (base64Encode P (JSON_stringify P c))) query
                 else query
             | None \<Rightarrow> query);
          query =
            (case InvocationType params of
               Some t \<Rightarrow> AList.update ''InvocationType'' (QString (InvocationType_text t)) query
             | None \<Rightarrow> query);
          query =
            (case LogType params of
               Some t \<Rightarrow> AList.update ''LogType'' (QString (LogType_text t)) query
             | None \<Rightarrow> query);
          query =
            (case Qualifier params of
               Some q \<Rightarrow> if q \<noteq> [] then AList.update ''Qualifier'' (QString q) query else query
             | None \<Rightarrow> query)
      in \<lparr>accessKeyId = None, secretAccessKey = None, service = ''lambda'', region = None,
          path = Some path, query = Some query, method = Some Post, headers = Some headers,
          payload = Some (Payload params)\<rparr>)"

definition invoke_result :: "platform \<Rightarrow> HTTPResponse \<Rightarrow> error + InvokeResult" where
  "invoke_result P response =
     (let respCode = getResponseCode response;
          respHeaders = getAllHeaders response
      in case JSON_parse P (getContentText response) of
        None \<Rightarrow> Inl SyntaxError
      | Some respPayload \<Rightarrow>
     (let logResult = map_of respHeaders ''X-Amz-Log-Result''
      in case (case logResult of
                 Some l \<Rightarrow>
                   if l \<noteq> [] then
                     (case base64Decode P l of Some bs \<Rightarrow> Inr (Some bs) | None \<Rightarrow> Inl Base64Error)
                   else Inr None
               | None \<Rightarrow> Inr None) of
        Inl e \<Rightarrow> Inl e
      | Inr decoded \<Rightarrow>
     (let result =
            \<lparr>StatusCode = respCode,
             ExecutedVersion = map_of respHeaders ''X-Amz-Executed-Version'',
             LogResult = decoded,
             result_Payload = respPayload\<rparr>
      in if StatusCode result < 200 \<or> StatusCode result > 299 then
           (let message =
                  or_else (optional_property (result_Payload result) ''errorMessage'')
                          (optional_property (result_Payload result) ''message'')
            in Inl (InvocationError message))
         else Inr result)))"

definition invoke ::
  "platform \<Rightarrow> AWSConfig \<Rightarrow> string \<Rightarrow> LambdaInvokeParams \<Rightarrow> world \<Rightarrow> (error + InvokeResult) \<times> world" where
  "invoke P cfg curDate params w =
     (let requestParams = invoke_requestParams P cfg params
      in case request P cfg curDate requestParams w of
        (Inl e, w') \<Rightarrow> (Inl e, w')
      | (Inr response, w') \<Rightarrow> (invoke_result P response, w'))"

section \<open>A sample platform\<close>

text \<open>
  Concrete inputs for the worked examples: toy digests (the lengths of their arguments), a
  \<open>JSON.parse\<close> that knows the two texts the examples use and rejects the empty text, as
  \<open>JSON.parse\<close> does, and transports that answer every call with one fixed response.
\<close>

definition sample_parse :: "string \<Rightarrow> json option" where
  \<open>sample_parse s =
     (if s = ''{"errorMessage":"not found"}'' then Some (JObject [(''errorMessage'', JString ''not found'')])
      else if s = ''{"ok":true}'' then Some (JObject [(''ok'', JBool True)])
      else None)\<close>

definition sample_platform :: "HTTPResponse \<Rightarrow> platform" where
  "sample_platform response =
     \<lparr>HmacSHA256_raw = (\<lambda>key message. [of_nat (length key), of_nat (length message)]),
      SHA256_raw = (\<lambda>message. [of_nat (length message)]),
      JSON_stringify = (\<lambda>j. ''{}''),
      JSON_parse = sample_parse,
      base64Encode = (\<lambda>s. s),
      base64Decode = (\<lambda>s. Some (utf8 s)),
      UrlFetchApp_fetch = (\<lambda>uri options. Inr response)\<rparr>"

definition response_404 :: HTTPResponse where
  \<open>response_404 =
     \<lparr>getResponseCode = 404, getAllHeaders = [],
      getContentText = ''{"errorMessage":"not found"}''\<rparr>\<close>

definition response_200 :: HTTPResponse where
  \<open>response_200 =
     \<lparr>getResponseCode = 200, getAllHeaders = [(''X-Amz-Executed-Version'', ''$LATEST'')],
      getContentText = ''{"ok":true}''\<rparr>\<close>

definition response_202 :: HTTPResponse where
  \<comment> \<open>the answer to an \<open>Event\<close> invocation: a status code and no body\<close>
  "response_202 = \<lparr>getResponseCode = 202, getAllHeaders = [], getContentText = []\<rparr>"

definition sample_date :: string where
  "sample_date = ''2015-08-30T12:36:00.000Z''"

definition sample_params :: RequestParams where
  "sample_params =
     \<lparr>accessKeyId = None, secretAccessKey = None, service = ''Lambda'', region = Some ''US-West-2'',
      path = Some ''2015-03-31/functions/foo/invocations'',
      query = Some [(''b'', QNumber ''2''), (''a'', QNumber ''1'')], method = None,
      headers = Some [(''Content-Type'', ''text/plain''), (''host'', ''example.org'')],
      payload = None\<rparr>"

definition sample_invoke_params :: LambdaInvokeParams where
  "sample_invoke_params =
     \<lparr>ClientContext = None, FunctionName = ''foo'', Payload = PayloadString ''{}'',
      InvocationType = Some Event, LogType = None, Qualifier = None\<rparr>"

definition empty_world :: world where
  "empty_world = \<lparr>fetch_calls = []\<rparr>"

section \<open>Properties of the built-in operations\<close>

subsection \<open>The comparison functions sort by the order on strings\<close>

lemma sort_insert_compare_strings: "sort_insert compare_strings x ys = insort x ys"
  by (induction ys) (auto simp: compare_strings_def)

lemma array_sort_compare_strings: "array_sort compare_strings xs = sort xs"
  by (induction xs) (simp_all add: array_sort_def sort_insert_compare_strings)

lemma sort_insert_compare_keys: "sort_insert compare_keys x ys = insort_key fst x ys"
  by (induction ys) (auto simp: compare_keys_def)

lemma array_sort_compare_keys: "array_sort compare_keys xs = sort_key fst xs"
  by (induction xs) (simp_all add: array_sort_def sort_insert_compare_keys)

lemma map_insort_key: "map f (insort_key f x xs) = insort (f x) (map f xs)"
  by (induction xs) simp_all

lemma map_sort_key: "map f (sort_key f xs) = sort (map f xs)"
  by (induction xs) (simp_all add: map_insort_key)

lemma sort_cong_mset: "mset xs = mset ys \<Longrightarrow> sort xs = sort ys"
  by (metis properties_for_sort mset_sort sorted_sort)

subsection \<open>\<open>split\<close> and \<open>join\<close>\<close>

lemma split_not_Nil: "split d s \<noteq> []"
  by (induction s) (auto split: list.splits)

lemma join_Cons_Cons: "join sep ((c # p) # ps) = c # join sep (p # ps)"
  by (cases ps) simp_all

lemma join_empty_concat: "join [] xs = concat xs"
  by (induction "[] :: string" xs rule: join.induct) simp_all

lemma join_split: "join [d] (split d s) = s"
proof (induction s)
  case Nil
  show ?case by simp
next
  case (Cons c cs)
  obtain p ps where ps: "split d cs = p # ps"
    using split_not_Nil [of d cs] by (cases "split d cs") auto
  show ?case
    using Cons ps by (auto simp: join_Cons_Cons)
qed

lemma split_segments: "seg \<in> set (split d s) \<Longrightarrow> set seg \<subseteq> set s - {d}"
proof (induction s arbitrary: seg)
  case Nil
  then show ?case by simp
next
  case (Cons c cs)
  obtain p ps where ps: "split d cs = p # ps"
    using split_not_Nil [of d cs] by (cases "split d cs") auto
  show ?case
  proof (cases "c = d")
    case True
    with Cons show ?thesis by auto
  next
    case False
    with Cons.prems ps have "seg = c # p \<or> seg \<in> set ps" by auto
    then show ?thesis
      using Cons.IH [of p] Cons.IH [of seg] ps False by auto
  qed
qed

lemma split_no_delim: "d \<notin> set x \<Longrightarrow> split d x = [x]"
  by (induction x) auto

lemma split_append_delim: "d \<notin> set x \<Longrightarrow> split d (x @ d # rest) = x # split d rest"
  by (induction x) auto

lemma split_join: "xs \<noteq> [] \<Longrightarrow> \<forall>x\<in>set xs. d \<notin> set x \<Longrightarrow> split d (join [d] xs) = xs"
proof (induction "[d]" xs rule: join.induct)
  case 1
  then show ?case by simp
next
  case (2 x)
  then show ?case by (simp add: split_no_delim)
next
  case (3 x y ys)
  then show ?case by (simp add: split_append_delim)
qed

subsection \<open>Hexadecimal text and percent-encoding\<close>

lemma hex_digit_upper: "n < 16 \<Longrightarrow> ''0123456789ABCDEF'' ! n \<in> set ''0123456789ABCDEF''"
  by (rule nth_mem) simp

lemma hex_digit_lower: "n < 16 \<Longrightarrow> ''0123456789abcdef'' ! n \<in> set ''0123456789abcdef''"
  by (rule nth_mem) simp

lemma unat_byte_div: "unat (b :: byte) div 16 < 16"
proof -
  have "unat b < 256" using unsigned_less [of b] by simp
  then show ?thesis by simp
qed

lemma set_hex_upper: "set (hex_upper b) \<subseteq> set ''0123456789ABCDEF''"
  unfolding hex_upper_def
  using hex_digit_upper [OF unat_byte_div [of b]] hex_digit_upper [of "unat b mod 16"]
  by simp

lemma set_hex_lower: "set (hex_lower b) \<subseteq> set ''0123456789abcdef''"
  unfolding hex_lower_def
  using hex_digit_lower [OF unat_byte_div [of b]] hex_digit_lower [of "unat b mod 16"]
  by simp

lemma set_bytesToHex: "set (bytesToHex bs) \<subseteq> set ''0123456789abcdef''"
  unfolding bytesToHex_def using set_hex_lower by (induction bs) auto

lemma length_bytesToHex: "length (bytesToHex bs) = 2 * length bs"
  by (induction bs) (simp_all add: bytesToHex_def hex_lower_def)

lemma slash_not_unescaped: "\<not> uri_unescaped (CHR ''/'')"
  by (simp add: uri_unescaped_def is_alpha_def is_digit_def in_range_def code_def uri_mark_def)

lemma percent_encode_no_slash: "CHR ''/'' \<notin> set (percent_encode uri_unescaped c)"
proof (cases "uri_unescaped c")
  case True
  then show ?thesis using slash_not_unescaped by (auto simp: percent_encode_def)
next
  case False
  have "CHR ''/'' \<notin> set ''0123456789ABCDEF''" by simp
  then have "CHR ''/'' \<notin> set (hex_upper b)" for b
    using set_hex_upper [of b] by blast
  with False show ?thesis by (auto simp: percent_encode_def)
qed

lemma encodeURIComponent_no_slash: "CHR ''/'' \<notin> set (encodeURIComponent s)"
  using percent_encode_no_slash by (auto simp: encodeURIComponent_def)

lemma encodeURIComponent_unescaped:
  "\<forall>c\<in>set s. uri_unescaped c \<Longrightarrow> encodeURIComponent s = s"
  by (induction s) (simp_all add: encodeURIComponent_def percent_encode_def)

text \<open>The unreserved characters of RFC 3986 are among those left alone.\<close>

lemma rfc3986_unreserved_unescaped:
  "is_alpha c \<or> is_digit c \<or> c \<in> set ''-._~'' \<Longrightarrow> uri_unescaped c"
  by (auto simp: uri_unescaped_def uri_mark_def)

lemma split_normalizedPath:
  "split (CHR ''/'') (normalizedPath p) = map encodeURIComponent (split (CHR ''/'') p)"
  unfolding normalizedPath_def
  by (rule split_join [where d = "CHR ''/''", simplified])
     (auto simp: split_not_Nil encodeURIComponent_no_slash)

section \<open>The signature engine\<close>

text \<open>
  C1. For every secret key, date stamp, region, service and string to sign,
  \<open>calculateSignature\<close> is the signature of the specification under the signing key of
  the specification: the four-step chain of keyed hashes that starts from the UTF-8 bytes
  of \<open>"AWS4"\<close> followed by the secret key, every intermediate result passed on as raw
  bytes, and the last keyed hash, of the string to sign, written as text. That text
  consists of lowercase hexadecimal digits, two for every byte of the hash.
\<close>

theorem calculateSignature_chain:
  "calculateSignature P k d r s sts =
     Str (signature_spec (HmacSHA256_raw P) sts (deriveSigningKey_spec (HmacSHA256_raw P) k d r s))
   \<and> set (data_toString (calculateSignature P k d r s sts)) \<subseteq> set ''0123456789abcdef''
   \<and> length (data_toString (calculateSignature P k d r s sts)) =
       2 * length (HmacSHA256_raw P (deriveSigningKey_spec (HmacSHA256_raw P) k d r s) (utf8 sts))"
proof -
  let ?key = "deriveSigningKey_spec (HmacSHA256_raw P) k d r s"
  have eq: "calculateSignature P k d r s sts = Str (bytesToHex (HmacSHA256_raw P ?key (utf8 sts)))"
    by (simp add: calculateSignature_def HmacSHA256_def deriveSigningKey_spec_def)
  have hex: "set (data_toString (calculateSignature P k d r s sts)) \<subseteq> set ''0123456789abcdef''"
    unfolding eq data_toString.simps by (rule set_bytesToHex)
  have len: "length (data_toString (calculateSignature P k d r s sts)) =
      2 * length (HmacSHA256_raw P ?key (utf8 sts))"
    unfolding eq data_toString.simps by (rule length_bytesToHex)
  from eq hex len show ?thesis
    unfolding signature_spec_def by blast
qed

section \<open>The canonicalizer\<close>

text \<open>
  C2. For every method, path, headers, query string and payload, the hash
  \<open>getCanonicalRequestHash\<close> returns is the hexadecimal SHA-256 digest of six lines
  joined by newlines: the method, the normalized path, the query string, the canonical
  headers block (one \<open>key:value\<close> line per header, sorted by key), the signed-headers
  string (the sorted lowercase keys joined by semicolons) and the hexadecimal SHA-256
  digest of the payload; the signed-headers string is returned with it. The normalized
  path has the segments of the path, each percent-encoded on its own, between the same
  slashes.
\<close>

theorem getCanonicalRequestHash_lines:
  "getCanonicalRequestHash P m p hs qs pl =
     \<lparr>hashedCanonicalRequest =
        SHA256 P (m @ NL @ normalizedPath p @ NL @ qs @ NL
                  @ concat (map (\<lambda>(k, v). k @ '':'' @ v @ NL) (sort_key fst (map canonical_header hs))) @ NL
                  @ join '';'' (sort (map (\<lambda>(k, v). toLowerCase (trim k)) hs)) @ NL
                  @ SHA256 P pl),
      signedHeaders = join '';'' (sort (map (\<lambda>(k, v). toLowerCase (trim k)) hs))\<rparr>
   \<and> split (CHR ''/'') (normalizedPath p) = map encodeURIComponent (split (CHR ''/'') p)
   \<and> SHA256 P pl = bytesToHex (SHA256_raw P (utf8 pl))"
proof -
  have keys: "map fst (sort_key fst (map canonical_header hs)) =
      sort (map (\<lambda>(k, v). toLowerCase (trim k)) hs)"
    by (simp add: map_sort_key canonical_header_def split_def comp_def)
  have block: "canonicalHeadersStr hs =
      concat (map (\<lambda>(k, v). k @ '':'' @ v @ NL) (sort_key fst (map canonical_header hs)))"
    by (simp add: canonicalHeadersStr_def sorted_headers_def entries_def array_sort_compare_keys
        join_empty_concat split_def)
  have signed: "signedHeadersStr hs = join '';'' (sort (map (\<lambda>(k, v). toLowerCase (trim k)) hs))"
    by (simp add: signedHeadersStr_def sorted_headers_def entries_def array_sort_compare_keys keys)
  show ?thesis
    by (simp add: getCanonicalRequestHash_def block signed split_normalizedPath SHA256_def Let_def)
qed


subsection \<open>The canonical query string\<close>

lemma own_parts_cases:
  "own_parts q = (if ''hasOwnProperty'' \<in> fst ` set q then Inl TypeError else Inr q)"
proof (cases "map_of q ''hasOwnProperty''")
  case None
  then have "''hasOwnProperty'' \<notin> fst ` set q" by (simp add: map_of_eq_None_iff)
  with None show ?thesis
    by (simp add: own_parts_def property_def)
next
  case (Some v)
  then have "''hasOwnProperty'' \<in> fst ` set q" by (metis map_of_eq_None_iff option.distinct(1))
  with Some show ?thesis
    by (simp add: own_parts_def property_def)
qed

lemma getCanonicalQueryString_cases:
  "getCanonicalQueryString q =
     (if ''hasOwnProperty'' \<in> fst ` set q then Inl TypeError
      else Inr (join ''&'' (sort (map query_part q))))"
  by (simp add: getCanonicalQueryString_def own_parts_cases array_sort_compare_strings)

text \<open>
  What holds of C3: for a query object with no own key \<open>hasOwnProperty\<close>, the canonical
  query string is made of one token per pair, the percent-encoded trimmed key, \<open>=\<close> and
  the percent-encoded value (nothing for \<open>null\<close> and \<open>undefined\<close>); the tokens are sorted
  as whole strings, code unit by code unit, and joined by \<open>&\<close>. Two such query objects
  with the same pairs in another order have the same canonical query string, and
  \<open>{b: 2, a: 1}\<close> gives \<open>a=1&b=2\<close>.
\<close>

lemma getCanonicalQueryString_sorted:
  assumes "''hasOwnProperty'' \<notin> fst ` set q"
  shows "getCanonicalQueryString q =
     Inr (join ''&'' (sort (map (\<lambda>(k, v). encodeURIComponent (trim k) @ ''='' @
        encodeURIComponent (case v of QNull \<Rightarrow> [] | QUndefined \<Rightarrow> [] | QString s \<Rightarrow> s
                            | QNumber text \<Rightarrow> text)) q)))"
proof -
  have part: "query_part = (\<lambda>(k, v). encodeURIComponent (trim k) @ ''='' @
        encodeURIComponent (case v of QNull \<Rightarrow> [] | QUndefined \<Rightarrow> [] | QString s \<Rightarrow> s
                            | QNumber text \<Rightarrow> text))"
    by (rule ext) (auto simp: query_part_def split: qvalue.splits)
  from assms show ?thesis
    unfolding getCanonicalQueryString_cases part by simp
qed

lemma getCanonicalQueryString_permutation:
  assumes "mset q = mset q'"
  shows "getCanonicalQueryString q = getCanonicalQueryString q'"
proof -
  from assms have "mset (map query_part q) = mset (map query_part q')" by (metis mset_map)
  then have "sort (map query_part q) = sort (map query_part q')" by (rule sort_cong_mset)
  moreover from assms have "set q = set q'" by (metis set_mset_mset)
  ultimately show ?thesis unfolding getCanonicalQueryString_cases by simp
qed

lemma getCanonicalQueryString_scenario:
  "getCanonicalQueryString [(''b'', QNumber ''2''), (''a'', QNumber ''1'')] = Inr ''a=1&b=2''"
  "getCanonicalQueryString [(''n'', QNumber ''1e+21'')] = Inr ''n=1e%2B21''"
  by code_simp+

text \<open>
  C3 fails on a query object with an own key \<open>hasOwnProperty\<close>: for
  \<open>{hasOwnProperty: 'x'}\<close>, where the canonical query string \<open>hasOwnProperty=x\<close> is due,
  \<open>query.hasOwnProperty(key)\<close> calls the string \<open>'x'\<close> and throws a type error.
\<close>

theorem getCanonicalQueryString_hasOwnProperty:
  "getCanonicalQueryString [(''hasOwnProperty'', QString ''x'')] = Inl TypeError"
  by code_simp


text \<open>
  C7. Path normalization changes nothing in a path made of slashes and of characters
  that percent-encoding leaves alone (letters, digits and \<open>- _ . ! ~ * ' ( )\<close>, the
  unreserved characters of RFC 3986 among them); on such a path it is idempotent.
\<close>

theorem normalizedPath_idempotent:
  "\<forall>c\<in>set p. uri_unescaped c \<or> c = CHR ''/'' \<Longrightarrow>
     normalizedPath (normalizedPath p) = normalizedPath p \<and> normalizedPath p = p"
proof -
  assume a: "\<forall>c\<in>set p. uri_unescaped c \<or> c = CHR ''/''"
  have "map encodeURIComponent (split (CHR ''/'') p) = split (CHR ''/'') p"
  proof (rule map_idI)
    fix seg assume "seg \<in> set (split (CHR ''/'') p)"
    then have "set seg \<subseteq> set p - {CHR ''/''}" by (rule split_segments)
    with a have "\<forall>c\<in>set seg. uri_unescaped c" by auto
    then show "encodeURIComponent seg = seg" by (rule encodeURIComponent_unescaped)
  qed
  then have "normalizedPath p = p" by (simp add: normalizedPath_def join_split)
  then show ?thesis by simp
qed

theorem normalizedPath_idempotent_witness:
  "list_all (\<lambda>c. uri_unescaped c \<or> c = CHR ''/'') ''/2015-03-31/functions/my_fn~1/invocations''
   \<and> normalizedPath (normalizedPath ''/2015-03-31/functions/my_fn~1/invocations'')
       = normalizedPath ''/2015-03-31/functions/my_fn~1/invocations''
   \<and> normalizedPath ''/2015-03-31/functions/my_fn~1/invocations''
       = ''/2015-03-31/functions/my_fn~1/invocations''"
proof -
  have h: "\<forall>c\<in>set ''/2015-03-31/functions/my_fn~1/invocations''. uri_unescaped c \<or> c = CHR ''/''"
    by code_simp
  from normalizedPath_idempotent [OF h] h show ?thesis
    unfolding list_all_iff by blast
qed

subsection \<open>Header values: trimming and white-space runs\<close>

lemma replace_spaces_run_Nil:
  assumes "2 \<le> length ws" "list_all is_space ws" "b = [] \<or> \<not> is_space (hd b)"
  shows "replace_spaces (ws @ b) = CHR '' '' # replace_spaces b"
proof -
  from assms(1) obtain w ws' where ws: "ws = w # ws'" "ws' \<noteq> []"
    by (cases ws) (auto simp: Suc_le_eq)
  from assms(2) ws have sp: "is_space w" "\<forall>x\<in>set ws'. is_space x"
    by (auto simp: list_all_iff)
  from assms(3) have b: "takeWhile is_space b = []" "dropWhile is_space b = b"
    by (cases b; auto)+
  from sp b have "takeWhile is_space (ws' @ b) = ws'" "dropWhile is_space (ws' @ b) = b"
    by (simp_all add: takeWhile_append2 dropWhile_append2)
  with ws sp show ?thesis by simp
qed

lemma replace_spaces_run:
  assumes "2 \<le> length ws" "list_all is_space ws"
    and "a = [] \<or> \<not> is_space (last a)" and "b = [] \<or> \<not> is_space (hd b)"
  shows "replace_spaces (a @ ws @ b) = replace_spaces a @ CHR '' '' # replace_spaces b"
  using assms(3)
proof (induction a rule: replace_spaces.induct)
  case 1
  show ?case using replace_spaces_run_Nil [OF assms(1,2,4)] by simp
next
  case (2 c cs)
  from assms(1,2) obtain w ws' where ws: "ws = w # ws'" "is_space w"
    by (cases ws) (auto simp: list_all_iff)
  show ?case
  proof (cases "is_space c \<and> takeWhile is_space cs \<noteq> []")
    case True
    then have cs: "cs \<noteq> []" by auto
    with "2.prems" have last: "\<not> is_space (last cs)" by simp
    then have nall: "\<not> (\<forall>x\<in>set cs. is_space x)" using cs last_in_set by blast
    then have tw: "takeWhile is_space (cs @ ws @ b) = takeWhile is_space cs"
      and dw: "dropWhile is_space (cs @ ws @ b) = dropWhile is_space cs @ ws @ b"
      by (auto simp: takeWhile_append dropWhile_append)
    have dne: "dropWhile is_space cs \<noteq> []" using nall by (simp add: dropWhile_eq_Nil_conv)
    have "last (dropWhile is_space cs) = last cs"
      using dne by (metis last_appendR takeWhile_dropWhile_id)
    with last dne have "dropWhile is_space cs = [] \<or> \<not> is_space (last (dropWhile is_space cs))"
      by simp
    from "2.IH"(1) [OF True this] True tw dw show ?thesis by simp
  next
    case False
    show ?thesis
    proof (cases "cs = []")
      case True
      with "2.prems" have "\<not> is_space c" by simp
      with True "2.IH"(2) [OF False] show ?thesis by simp
    next
      case ne: False
      with "2.prems" have l: "cs = [] \<or> \<not> is_space (last cs)" by simp
      have tw: "is_space c \<Longrightarrow> takeWhile is_space (cs @ ws @ b) = []"
        using False ne by (cases cs) auto
      from "2.IH"(2) [OF False l] False tw show ?thesis by auto
    qed
  qed
qed

lemma replace_spaces_fixed:
  "no_space_run s \<Longrightarrow> replace_spaces s = s"
proof (induction s rule: replace_spaces.induct)
  case 1
  show ?case by simp
next
  case (2 c cs)
  have tail: "no_space_run cs"
    using "2.prems" by (cases cs) simp_all
  have no: "\<not> (is_space c \<and> takeWhile is_space cs \<noteq> [])"
    using "2.prems" by (cases cs) auto
  from "2.IH"(2) [OF no tail] no show ?case by auto
qed

lemma trim_decompose:
  "\<exists>l t. v = l @ trim v @ t \<and> list_all is_space l \<and> list_all is_space t"
proof -
  let ?m = "dropWhile is_space v"
  have 1: "v = takeWhile is_space v @ ?m" by simp
  have 2: "rev ?m = takeWhile is_space (rev ?m) @ dropWhile is_space (rev ?m)" by simp
  then have "?m = trim v @ rev (takeWhile is_space (rev ?m))"
    unfolding trim_def by (metis rev_append rev_rev_ident)
  with 1 have "v = takeWhile is_space v @ trim v @ rev (takeWhile is_space (rev ?m))" by simp
  moreover have "list_all is_space (takeWhile is_space v)"
    by (simp add: list_all_iff) (meson set_takeWhileD)
  moreover have "list_all is_space (rev (takeWhile is_space (rev ?m)))"
    by (simp add: list_all_iff) (meson set_takeWhileD)
  ultimately show ?thesis by blast
qed

lemma trim_ends: "trim v = [] \<or> \<not> is_space (hd (trim v)) \<and> \<not> is_space (last (trim v))"
proof (cases "trim v = []")
  case True
  then show ?thesis by simp
next
  case False
  let ?m = "dropWhile is_space v"
  let ?r = "dropWhile is_space (rev ?m)"
  from False have r: "?r \<noteq> []" by (simp add: trim_def)
  then have "\<not> is_space (hd ?r)" by (metis hd_dropWhile)
  then have l: "\<not> is_space (last (trim v))" using r by (simp add: trim_def last_rev)
  have mne: "?m \<noteq> []"
  proof
    assume "?m = []"
    then have "?r = []" by (simp only: rev.simps dropWhile.simps)
    with r show False by (simp only:)
  qed
  then have hm: "\<not> is_space (hd ?m)" by (metis hd_dropWhile)
  have "rev ?m = takeWhile is_space (rev ?m) @ ?r" by simp
  then have "?m = rev ?r @ rev (takeWhile is_space (rev ?m))" by (metis rev_append rev_rev_ident)
  then have "hd ?m = hd (rev ?r)" using r by (metis hd_append2 rev_is_Nil_conv)
  with hm have "\<not> is_space (hd (trim v))" by (simp add: trim_def)
  with l show ?thesis by simp
qed

lemma mset_sort_insert: "mset (sort_insert cmp x ys) = add_mset x (mset ys)"
  by (induction ys) simp_all

lemma mset_array_sort: "mset (array_sort cmp xs) = mset xs"
  by (induction xs) (simp_all add: array_sort_def mset_sort_insert)


lemma sorted_array_sort_keys: "sorted (map fst (array_sort compare_keys xs))"
  by (simp add: array_sort_compare_keys)

text \<open>
  C4, as the code has it. Every header of the input has its own entry in the sorted
  block and in the signed-headers list: the entries are the headers with the key trimmed
  and lowercased and the value trimmed and its white-space runs replaced, sorted by key;
  keys that differ only by letter case are not merged, they give as many entries with
  the same lowercase key. In a value, the white space around it is removed, every run of
  two or more white-space characters becomes exactly one space, and a value with no such
  run is unchanged.
\<close>

theorem canonical_headers_entries:
  "mset (sorted_headers hs) = mset (map (\<lambda>(k, v). (toLowerCase (trim k), replace_spaces (trim v))) hs)
   \<and> length (sorted_headers hs) = length hs
   \<and> sorted (map fst (sorted_headers hs))
   \<and> canonicalHeadersStr hs = concat (map (\<lambda>(k, v). k @ '':'' @ v @ NL) (sorted_headers hs))
   \<and> signedHeadersStr hs = join '';'' (map fst (sorted_headers hs))
   \<and> (\<exists>l t. v = l @ trim v @ t \<and> list_all is_space l \<and> list_all is_space t)
   \<and> (trim v = [] \<or> \<not> is_space (hd (trim v)) \<and> \<not> is_space (last (trim v)))
   \<and> (2 \<le> length ws \<and> list_all is_space ws \<and> (a = [] \<or> \<not> is_space (last a))
        \<and> (b = [] \<or> \<not> is_space (hd b)) \<longrightarrow>
        replace_spaces (a @ ws @ b) = replace_spaces a @ '' '' @ replace_spaces b)
   \<and> (no_space_run s \<longrightarrow> replace_spaces s = s)"
proof -
  have canon: "canonical_header = (\<lambda>(k, v). (toLowerCase (trim k), replace_spaces (trim v)))"
    by (rule ext) (simp add: canonical_header_def split_def)
  have m: "mset (sorted_headers hs) = mset (map (\<lambda>(k, v). (toLowerCase (trim k), replace_spaces (trim v))) hs)"
    by (simp add: sorted_headers_def entries_def mset_array_sort canon)
  from m have "size (mset (sorted_headers hs)) = size (mset hs)" by simp
  then have len: "length (sorted_headers hs) = length hs" by simp
  have srt: "sorted (map fst (sorted_headers hs))"
    by (simp add: sorted_headers_def sorted_array_sort_keys)
  have block: "canonicalHeadersStr hs = concat (map (\<lambda>(k, v). k @ '':'' @ v @ NL) (sorted_headers hs))"
    by (simp add: canonicalHeadersStr_def join_empty_concat split_def)
  have signed: "signedHeadersStr hs = join '';'' (map fst (sorted_headers hs))"
    by (simp add: signedHeadersStr_def)
  have run: "replace_spaces (a @ ws @ b) = replace_spaces a @ '' '' @ replace_spaces b"
    if "2 \<le> length ws \<and> list_all is_space ws \<and> (a = [] \<or> \<not> is_space (last a))
        \<and> (b = [] \<or> \<not> is_space (hd b))"
    using that replace_spaces_run [of ws a b] by simp
  from m len srt block signed trim_decompose [of v] trim_ends [of v] run replace_spaces_fixed [of s]
  show ?thesis by blast
qed

theorem canonical_headers_entries_witness:
  "replace_spaces (trim ''  max-age=0,    no-cache  '') = ''max-age=0, no-cache''
   \<and> replace_spaces ''a b c'' = ''a b c''"
proof -
  have t: "trim ''  max-age=0,    no-cache  '' = ''max-age=0,'' @ ''    '' @ ''no-cache''" by code_simp
  have h1: "2 \<le> length ''    '' \<and> list_all is_space ''    ''
      \<and> (''max-age=0,'' = [] \<or> \<not> is_space (last ''max-age=0,''))
      \<and> (''no-cache'' = [] \<or> \<not> is_space (hd ''no-cache''))" by code_simp
  have h2: "no_space_run ''a b c''" "no_space_run ''max-age=0,''" "no_space_run ''no-cache''" by code_simp+
  from canonical_headers_entries [where ws = "''    ''" and a = "''max-age=0,''" and b = "''no-cache''"
      and s = "''a b c''"] h1 h2(1)
  have 1: "replace_spaces (''max-age=0,'' @ ''    '' @ ''no-cache'')
      = replace_spaces ''max-age=0,'' @ '' '' @ replace_spaces ''no-cache''"
    and 2: "replace_spaces ''a b c'' = ''a b c''" by blast+
  from canonical_headers_entries [where s = "''max-age=0,''"] h2(2)
  have 3: "replace_spaces ''max-age=0,'' = ''max-age=0,''" by blast
  from canonical_headers_entries [where s = "''no-cache''"] h2(3)
  have 4: "replace_spaces ''no-cache'' = ''no-cache''" by blast
  from 1 2 3 4 show ?thesis unfolding t by simp
qed

text \<open>
  C4, as the specification words it, fails: the keys \<open>Host\<close> and \<open>host\<close> differ only by
  letter case, and the headers \<open>{Host: a, host: b}\<close> give two entries in the block and two
  in the signed-headers list.
\<close>

theorem header_case_collapse_counterexample:
  "''Host'' \<noteq> ''host'' \<and> toLowerCase ''Host'' = toLowerCase ''host''
   \<and> sorted_headers [(''Host'', ''a''), (''host'', ''b'')] = [(''host'', ''a''), (''host'', ''b'')]
   \<and> canonicalHeadersStr [(''Host'', ''a''), (''host'', ''b'')] = ''host:a'' @ NL @ ''host:b'' @ NL
   \<and> signedHeadersStr [(''Host'', ''a''), (''host'', ''b'')] = ''host;host''
   \<and> signedHeaders (getCanonicalRequestHash (sample_platform response_200) ''GET'' ''/''
         [(''Host'', ''a''), (''host'', ''b'')] [] []) = ''host;host''"
  by code_simp


section \<open>The request assembler\<close>

subsection \<open>The host\<close>

lemma property_AWS_SINGLE_ENDPOINT:
  "property AWS_SINGLE_ENDPOINT s =
     (if s = ''cloudfront'' then Own ''cloudfront.amazonaws.com''
      else if s = ''health'' then Own ''health.us-east-1.amazonaws.com''
      else if s = ''iam'' then Own ''iam.amazonaws.com''
      else if s = ''importexport'' then Own ''importexport.amazonaws.com''
      else if s = ''shield'' then Own ''shield.us-east-1.amazonaws.com''
      else if s = ''waf'' then Own ''waf.amazonaws.com''
      else if s \<in> set Object_prototype_names then Inherited else Undefined)"
  by (simp add: property_def AWS_SINGLE_ENDPOINT_def)

text \<open>
  What holds of C8: for each service of the single-endpoint table the host is the
  endpoint of the table, whatever the region; for every other service that is not named
  like a property of \<open>Object.prototype\<close> it is the service, a dot, the region and
  \<open>.amazonaws.com\<close>.
\<close>

lemma resolve_host_table:
  "resolve_host ''cloudfront'' r = Some ''cloudfront.amazonaws.com''"
  "resolve_host ''health'' r = Some ''health.us-east-1.amazonaws.com''"
  "resolve_host ''iam'' r = Some ''iam.amazonaws.com''"
  "resolve_host ''importexport'' r = Some ''importexport.amazonaws.com''"
  "resolve_host ''shield'' r = Some ''shield.us-east-1.amazonaws.com''"
  "resolve_host ''waf'' r = Some ''waf.amazonaws.com''"
  by (simp_all add: resolve_host_def property_AWS_SINGLE_ENDPOINT)

lemma resolve_host_other:
  assumes "s \<notin> {''cloudfront'', ''health'', ''iam'', ''importexport'', ''shield'', ''waf''}"
    and "s \<notin> set Object_prototype_names"
  shows "resolve_host s r = Some (s @ ''.'' @ r @ ''.amazonaws.com'')"
  using assms by (simp add: resolve_host_def property_AWS_SINGLE_ENDPOINT)

lemma resolve_host_inherited:
  assumes "s \<in> set Object_prototype_names"
  shows "resolve_host s r = None"
proof -
  from assms have "s \<notin> {''cloudfront'', ''health'', ''iam'', ''importexport'', ''shield'', ''waf''}"
    by (auto simp: Object_prototype_names_def)
  with assms show ?thesis by (simp add: resolve_host_def property_AWS_SINGLE_ENDPOINT)
qed

lemma resolve_host_Some:
  "s \<notin> set Object_prototype_names \<Longrightarrow> \<exists>host. resolve_host s r = Some host"
  by (simp add: resolve_host_def property_AWS_SINGLE_ENDPOINT)

subsection \<open>When \<open>request\<close> reaches the transport, and with what\<close>

lemma request_fetch_call_Inr:
  "request_fetch_call P cfg d params = Inr call \<longleftrightarrow>
     (\<exists>akid secret reg full short.
        nullish (accessKeyId params) (config_accessKeyId (credentials cfg)) = Some akid
      \<and> nullish (secretAccessKey params) (config_secretAccessKey (credentials cfg)) = Some secret
      \<and> (case region params of Some r \<Rightarrow> if r \<noteq> [] then Some (toLowerCase r) else config_region cfg
          | None \<Rightarrow> config_region cfg) = Some reg
      \<and> getCanonicalFullDate d = Inr full \<and> getCanonicalShortDate d = Inr short
      \<and> signed_fetch_call P params akid secret (toLowerCase (service params)) reg full short = Inr call)"
  unfolding request_fetch_call_def assert_def Let_def
  by (auto split: option.splits sum.splits)


lemma getCanonicalDate_Inl:
  "getCanonicalFullDate d = Inl e \<Longrightarrow> e = TypeError"
  "getCanonicalShortDate d = Inl e \<Longrightarrow> e = TypeError"
  by (auto simp: getCanonicalFullDate_def getCanonicalShortDate_def split: option.splits)

lemma signed_fetch_call_Inl:
  "signed_fetch_call P params akid secret svc reg full short = Inl e \<Longrightarrow> e = TypeError"
  unfolding signed_fetch_call_def Let_def
  by (auto simp: getCanonicalQueryString_cases split: sum.splits option.splits if_splits)

lemma request_fetch_call_Inl:
  assumes "request_fetch_call P cfg d params = Inl e"
  shows "e = TypeError
       \<or> e = Error ''AWS region not specified''
       \<or> (e = Error ''AWS access key id not specified''
            \<and> nullish (accessKeyId params) (config_accessKeyId (credentials cfg)) = None)
       \<or> (e = Error ''AWS secret access key not specified''
            \<and> nullish (secretAccessKey params) (config_secretAccessKey (credentials cfg)) = None)"
  using assms unfolding request_fetch_call_def assert_def Let_def
  by (auto split: option.splits sum.splits if_splits
      dest: getCanonicalDate_Inl signed_fetch_call_Inl)

lemma signed_fetch_call_TypeError:
  assumes "resolve_host svc reg = None
         \<or> ''hasOwnProperty'' \<in> fst ` set (case query params of Some q \<Rightarrow> q | None \<Rightarrow> [])"
  shows "signed_fetch_call P params akid secret svc reg full short = Inl TypeError"
  using assms unfolding signed_fetch_call_def Let_def
  by (auto simp: getCanonicalQueryString_cases split: option.splits)

lemma signed_fetch_call_ok:
  assumes "resolve_host svc reg = Some host"
    and "''hasOwnProperty'' \<notin> fst ` set (case query params of Some q \<Rightarrow> q | None \<Rightarrow> [])"
  shows "\<exists>call. signed_fetch_call P params akid secret svc reg full short = Inr call"
  using assms unfolding signed_fetch_call_def Let_def
  by (simp add: getCanonicalQueryString_cases)

lemma signed_fetch_call_uri:
  assumes "signed_fetch_call P params akid secret svc reg full short = Inr call"
  shows "\<exists>host rest. resolve_host svc reg = Some host \<and> fst call = ''https://'' @ host @ rest"
proof -
  from assms obtain host where host: "resolve_host svc reg = Some host"
    unfolding signed_fetch_call_def Let_def by (auto split: sum.splits option.splits)
  from assms obtain qs where qs:
    "getCanonicalQueryString (case query params of Some q \<Rightarrow> q | None \<Rightarrow> []) = Inr qs"
    unfolding signed_fetch_call_def Let_def by (auto split: sum.splits option.splits)
  from assms have "\<exists>rest. fst call = ''https://'' @ host @ rest"
    unfolding signed_fetch_call_def Let_def host qs by auto
  with host show ?thesis by blast
qed

lemma signed_fetch_call_headers:
  assumes "signed_fetch_call P params akid secret svc reg full short = Inr call"
  shows "\<exists>host sts. resolve_host svc reg = Some host \<and> fetch_headers (snd call) =
     AList.delete ''Host''
       (AList.update ''Authorization''
          (HASH_ALGORITHM @ '' Credential='' @ akid @ ''/''
             @ (short @ ''/'' @ reg @ ''/'' @ svc @ ''/aws4_request'')
             @ '', SignedHeaders=''
             @ signedHeadersStr
                 (AList.update ''X-Amz-Date'' full
                    (AList.update ''Host'' host
                       (case headers params of Some h \<Rightarrow> h | None \<Rightarrow> [])))
             @ '', Signature='' @ data_toString (calculateSignature P secret short reg svc sts))
          (AList.update ''X-Amz-Date'' full
             (AList.update ''Host'' host
                (case headers params of Some h \<Rightarrow> h | None \<Rightarrow> []))))"
proof -
  from assms obtain host where host: "resolve_host svc reg = Some host"
    unfolding signed_fetch_call_def Let_def by (auto split: sum.splits option.splits)
  from assms obtain qs where qs:
    "getCanonicalQueryString (case query params of Some q \<Rightarrow> q | None \<Rightarrow> []) = Inr qs"
    unfolding signed_fetch_call_def Let_def by (auto split: sum.splits option.splits)
  from assms have "\<exists>sts. fetch_headers (snd call) =
     AList.delete ''Host''
       (AList.update ''Authorization''
          (HASH_ALGORITHM @ '' Credential='' @ akid @ ''/''
             @ (short @ ''/'' @ reg @ ''/'' @ svc @ ''/aws4_request'')
             @ '', SignedHeaders=''
             @ signedHeadersStr
                 (AList.update ''X-Amz-Date'' full
                    (AList.update ''Host'' host
                       (case headers params of Some h \<Rightarrow> h | None \<Rightarrow> [])))
             @ '', Signature='' @ data_toString (calculateSignature P secret short reg svc sts))
          (AList.update ''X-Amz-Date'' full
             (AList.update ''Host'' host
                (case headers params of Some h \<Rightarrow> h | None \<Rightarrow> []))))"
    unfolding signed_fetch_call_def Let_def host qs getCanonicalRequestHash_def
    apply (simp split del: if_split)
    apply (erule subst)
    apply (simp split del: if_split)
    apply (rule exI)
    apply (rule refl)
    done
  with host show ?thesis by blast
qed

lemma handed_headers:
  "map_of (AList.delete ''Host'' (AList.update ''Authorization'' v
             (AList.update ''X-Amz-Date'' f (AList.update ''Host'' h hs)))) k =
     (if k = ''Host'' then None else if k = ''Authorization'' then Some v
      else if k = ''X-Amz-Date'' then Some f else map_of hs k)"
  by (simp add: delete_conv' update_conv')

lemma request_unfold:
  "request P cfg d params w =
     (case request_fetch_call P cfg d params of
        Inl e \<Rightarrow> (Inl e, w)
      | Inr call \<Rightarrow> (UrlFetchApp_fetch P (fst call) (snd call), w\<lparr>fetch_calls := fetch_calls w @ [call]\<rparr>))"
  unfolding request_def by (auto split: sum.splits)

lemma sample_dates:
  "getCanonicalFullDate sample_date = Inr ''20150830T123600Z''"
  "getCanonicalShortDate sample_date = Inr ''20150830''"
  by code_simp+

lemma sample_lowercase:
  "toLowerCase ''Lambda'' = ''lambda''"
  "toLowerCase ''US-West-2'' = ''us-west-2''"
  "toLowerCase ''Constructor'' = ''constructor''"
  "toLowerCase ''constructor'' = ''constructor''"
  "toLowerCase ''lambda'' = ''lambda''"
  by code_simp+

lemma sample_params_lowercase:
  "toLowerCase (service sample_params) = ''lambda''"
  "(case region sample_params of Some r \<Rightarrow> if r \<noteq> [] then Some (toLowerCase r) else config_region cfg
     | None \<Rightarrow> config_region cfg) = Some ''us-west-2''"
  unfolding sample_params_def by code_simp+

lemma sample_params_no_slip:
  "''lambda'' \<notin> set Object_prototype_names"
  "''hasOwnProperty'' \<notin> fst ` set (case query sample_params of Some q \<Rightarrow> q | None \<Rightarrow> [])"
  by (simp_all add: Object_prototype_names_def sample_params_def)

lemma sample_request_call:
  "\<exists>call. request_fetch_call (sample_platform response_200) config sample_date sample_params = Inr call"
proof -
  from resolve_host_Some [OF sample_params_no_slip(1), of "''us-west-2''"]
  obtain host where "resolve_host ''lambda'' ''us-west-2'' = Some host" ..
  from signed_fetch_call_ok [OF this sample_params_no_slip(2)]
  obtain call where "signed_fetch_call (sample_platform response_200) sample_params [] [] ''lambda''
      ''us-west-2'' ''20150830T123600Z'' ''20150830'' = Inr call" by blast
  then show ?thesis
    unfolding request_fetch_call_Inr sample_params_lowercase sample_dates
    by (simp add: nullish_def config_def sample_params_def)
qed




lemma request_uri_host:
  assumes "request_fetch_call P cfg d params = Inr (uri, opts)"
  shows "\<exists>reg host rest.
           (case region params of Some r \<Rightarrow> if r \<noteq> [] then Some (toLowerCase r) else config_region cfg
            | None \<Rightarrow> config_region cfg) = Some reg
         \<and> resolve_host (toLowerCase (service params)) reg = Some host
         \<and> uri = ''https://'' @ host @ rest"
proof -
  from assms obtain akid secret reg full short where
    reg: "(case region params of Some r \<Rightarrow> if r \<noteq> [] then Some (toLowerCase r) else config_region cfg
          | None \<Rightarrow> config_region cfg) = Some reg"
    and call: "signed_fetch_call P params akid secret (toLowerCase (service params)) reg full short
        = Inr (uri, opts)"
    unfolding request_fetch_call_Inr by blast
  from signed_fetch_call_uri [OF call] reg show ?thesis by auto
qed


text \<open>
  C8 fails for a service named like a property of \<open>Object.prototype\<close>. For the service
  \<open>constructor\<close>, where the host \<open>constructor.us-west-2.amazonaws.com\<close> is due,
  \<open>AWS_SINGLE_ENDPOINT[service]\<close> is the inherited constructor function: the host is no
  string, and \<open>request\<close> throws a type error and makes no call to the transport.
\<close>

theorem resolve_host_constructor:
  "resolve_host ''constructor'' ''us-west-2'' = None
   \<and> request (sample_platform response_200) config sample_date
         (sample_params\<lparr>service := ''constructor''\<rparr>) empty_world
       = (Inl TypeError, empty_world)"
proof -
  have host: "resolve_host ''constructor'' ''us-west-2'' = None"
    by (rule resolve_host_inherited) (simp add: Object_prototype_names_def)
  have "request_fetch_call (sample_platform response_200) config sample_date
         (sample_params\<lparr>service := ''constructor''\<rparr>)
      = signed_fetch_call (sample_platform response_200) (sample_params\<lparr>service := ''constructor''\<rparr>)
          [] [] ''constructor'' ''us-west-2'' ''20150830T123600Z'' ''20150830''"
    by (simp add: request_fetch_call_def assert_def nullish_def config_def sample_dates
        sample_lowercase sample_params_def)
  also have "\<dots> = Inl TypeError"
    by (rule signed_fetch_call_TypeError) (simp add: host)
  finally show ?thesis
    using host by (simp add: request_unfold)
qed



text \<open>
  C9. When \<open>request\<close> reaches the transport, the headers it hands over contain
  \<open>X-Amz-Date\<close> with the full date, \<open>Authorization\<close> made of the algorithm, the access
  key id, the credential scope, the signed headers and the signature, no \<open>Host\<close>, and
  every other header the caller gave, with its value.
\<close>

theorem request_headers_handed_over:
  "request_fetch_call P cfg d params = Inr (uri, opts) \<Longrightarrow>
     request P cfg d params w =
       (UrlFetchApp_fetch P uri opts, w\<lparr>fetch_calls := fetch_calls w @ [(uri, opts)]\<rparr>)
   \<and> (\<exists>akid secret reg host full short sts.
         nullish (accessKeyId params) (config_accessKeyId (credentials cfg)) = Some akid
       \<and> nullish (secretAccessKey params) (config_secretAccessKey (credentials cfg)) = Some secret
       \<and> (case region params of Some r \<Rightarrow> if r \<noteq> [] then Some (toLowerCase r) else config_region cfg
           | None \<Rightarrow> config_region cfg) = Some reg
       \<and> resolve_host (toLowerCase (service params)) reg = Some host
       \<and> getCanonicalFullDate d = Inr full \<and> getCanonicalShortDate d = Inr short
       \<and> map_of (fetch_headers opts) ''X-Amz-Date'' = Some full
       \<and> map_of (fetch_headers opts) ''Authorization'' =
           Some (HASH_ALGORITHM @ '' Credential='' @ akid @ ''/''
                 @ (short @ ''/'' @ reg @ ''/'' @ toLowerCase (service params) @ ''/aws4_request'')
                 @ '', SignedHeaders=''
                 @ signedHeadersStr
                     (AList.update ''X-Amz-Date'' full
                        (AList.update ''Host'' host
                           (case headers params of Some h \<Rightarrow> h | None \<Rightarrow> [])))
                 @ '', Signature=''
                 @ data_toString
                     (calculateSignature P secret short reg (toLowerCase (service params)) sts)))
   \<and> map_of (fetch_headers opts) ''Host'' = None
   \<and> (\<forall>k. k \<notin> {''Host'', ''X-Amz-Date'', ''Authorization''} \<longrightarrow>
          map_of (fetch_headers opts) k
            = map_of (case headers params of Some h \<Rightarrow> h | None \<Rightarrow> []) k)"
proof -
  assume ok: "request_fetch_call P cfg d params = Inr (uri, opts)"
  then obtain akid secret reg full short where
    akid: "nullish (accessKeyId params) (config_accessKeyId (credentials cfg)) = Some akid"
    and secret: "nullish (secretAccessKey params) (config_secretAccessKey (credentials cfg)) = Some secret"
    and reg: "(case region params of Some r \<Rightarrow> if r \<noteq> [] then Some (toLowerCase r) else config_region cfg
           | None \<Rightarrow> config_region cfg) = Some reg"
    and dates: "getCanonicalFullDate d = Inr full" "getCanonicalShortDate d = Inr short"
    and call: "signed_fetch_call P params akid secret (toLowerCase (service params)) reg full short
        = Inr (uri, opts)"
    unfolding request_fetch_call_Inr by blast
  from signed_fetch_call_headers [OF call]
  obtain host sts where host: "resolve_host (toLowerCase (service params)) reg = Some host"
    and hs: "fetch_headers opts =
     AList.delete ''Host''
       (AList.update ''Authorization''
          (HASH_ALGORITHM @ '' Credential='' @ akid @ ''/''
             @ (short @ ''/'' @ reg @ ''/'' @ toLowerCase (service params) @ ''/aws4_request'')
             @ '', SignedHeaders=''
             @ signedHeadersStr
                 (AList.update ''X-Amz-Date'' full
                    (AList.update ''Host'' host
                       (case headers params of Some h \<Rightarrow> h | None \<Rightarrow> [])))
             @ '', Signature='' @ data_toString (calculateSignature P secret short reg (toLowerCase (service params)) sts))
          (AList.update ''X-Amz-Date'' full
             (AList.update ''Host'' host
                (case headers params of Some h \<Rightarrow> h | None \<Rightarrow> []))))"
    by auto
  have sent: "request P cfg d params w =
       (UrlFetchApp_fetch P uri opts, w\<lparr>fetch_calls := fetch_calls w @ [(uri, opts)]\<rparr>)"
    by (simp add: request_unfold ok)
  have host_gone: "map_of (fetch_headers opts) ''Host'' = None"
    unfolding hs handed_headers by simp
  have date: "map_of (fetch_headers opts) ''X-Amz-Date'' = Some full"
    unfolding hs handed_headers by simp
  have auth: "map_of (fetch_headers opts) ''Authorization'' =
           Some (HASH_ALGORITHM @ '' Credential='' @ akid @ ''/''
                 @ (short @ ''/'' @ reg @ ''/'' @ toLowerCase (service params) @ ''/aws4_request'')
                 @ '', SignedHeaders=''
                 @ signedHeadersStr
                     (AList.update ''X-Amz-Date'' full
                        (AList.update ''Host'' host
                           (case headers params of Some h \<Rightarrow> h | None \<Rightarrow> [])))
                 @ '', Signature=''
                 @ data_toString
                     (calculateSignature P secret short reg (toLowerCase (service params)) sts))"
    unfolding hs handed_headers by simp
  have frame: "\<forall>k. k \<notin> {''Host'', ''X-Amz-Date'', ''Authorization''} \<longrightarrow>
          map_of (fetch_headers opts) k
            = map_of (case headers params of Some h \<Rightarrow> h | None \<Rightarrow> []) k"
    unfolding hs handed_headers by simp
  from sent akid secret reg host dates date auth host_gone frame show ?thesis by blast
qed

theorem request_headers_handed_over_witness:
  "\<exists>uri opts.
     request (sample_platform response_200) config sample_date sample_params empty_world
       = (Inr response_200, \<lparr>fetch_calls = [(uri, opts)]\<rparr>)
   \<and> map_of (fetch_headers opts) ''X-Amz-Date'' = Some ''20150830T123600Z''
   \<and> map_of (fetch_headers opts) ''Host'' = None
   \<and> map_of (fetch_headers opts) ''Content-Type'' = Some ''text/plain''
   \<and> map_of (fetch_headers opts) ''host'' = Some ''example.org''"
proof -
  obtain uri opts where ok:
    "request_fetch_call (sample_platform response_200) config sample_date sample_params = Inr (uri, opts)"
    using sample_request_call by (metis surj_pair)
  have k: "''Content-Type'' \<notin> {''Host'', ''X-Amz-Date'', ''Authorization''}"
    "''host'' \<notin> {''Host'', ''X-Amz-Date'', ''Authorization''}" by simp_all
  have hs: "(case headers sample_params of Some h \<Rightarrow> h | None \<Rightarrow> [])
      = [(''Content-Type'', ''text/plain''), (''host'', ''example.org'')]"
    by (simp add: sample_params_def)
  have fetch: "UrlFetchApp_fetch (sample_platform response_200) uri opts = Inr response_200"
    by (simp add: sample_platform_def)
  from request_headers_handed_over [OF ok, of empty_world] k
  show ?thesis
    unfolding hs fetch sample_dates empty_world_def by auto
qed

text \<open>
  C10, as the code has it. With no credentials among the parameters and empty strings for
  the credentials of the default configuration, neither credential assertion fails. When
  moreover the region is resolved (from the parameter or the configuration), the service
  is not named like a property of \<open>Object.prototype\<close> and the query has no own key
  \<open>hasOwnProperty\<close>, \<open>request\<close> signs with the empty access key id and the empty secret
  access key and calls the transport. (The date is one \<open>DATE_VALUES_REGEX\<close> matches, as
  every ISO date is.)
\<close>

theorem request_empty_credentials:
  "accessKeyId params = None \<Longrightarrow> secretAccessKey params = None \<Longrightarrow>
   config_accessKeyId (credentials cfg) = Some [] \<Longrightarrow>
   config_secretAccessKey (credentials cfg) = Some [] \<Longrightarrow>
     request_fetch_call P cfg d params \<noteq> Inl (Error ''AWS access key id not specified'')
   \<and> request_fetch_call P cfg d params \<noteq> Inl (Error ''AWS secret access key not specified'')
   \<and> ((case region params of Some r \<Rightarrow> if r \<noteq> [] then Some (toLowerCase r) else config_region cfg
        | None \<Rightarrow> config_region cfg) = Some reg
       \<and> getCanonicalFullDate d = Inr full \<and> getCanonicalShortDate d = Inr short
       \<and> toLowerCase (service params) \<notin> set Object_prototype_names
       \<and> ''hasOwnProperty'' \<notin> fst ` set (case query params of Some q \<Rightarrow> q | None \<Rightarrow> []) \<longrightarrow>
       (\<exists>call host sts.
          request_fetch_call P cfg d params = Inr call
        \<and> signed_fetch_call P params [] [] (toLowerCase (service params)) reg full short = Inr call
        \<and> request P cfg d params w =
            (UrlFetchApp_fetch P (fst call) (snd call), w\<lparr>fetch_calls := fetch_calls w @ [call]\<rparr>)
        \<and> resolve_host (toLowerCase (service params)) reg = Some host
        \<and> map_of (fetch_headers (snd call)) ''Authorization'' =
            Some (HASH_ALGORITHM @ '' Credential='' @ [] @ ''/''
                  @ (short @ ''/'' @ reg @ ''/'' @ toLowerCase (service params) @ ''/aws4_request'')
                  @ '', SignedHeaders=''
                  @ signedHeadersStr
                      (AList.update ''X-Amz-Date'' full
                         (AList.update ''Host'' host
                            (case headers params of Some h \<Rightarrow> h | None \<Rightarrow> [])))
                  @ '', Signature=''
                  @ data_toString
                      (calculateSignature P [] short reg (toLowerCase (service params)) sts))))"
proof -
  assume none: "accessKeyId params = None" "secretAccessKey params = None"
    and cred: "config_accessKeyId (credentials cfg) = Some []"
      "config_secretAccessKey (credentials cfg) = Some []"
  have keys: "nullish (accessKeyId params) (config_accessKeyId (credentials cfg)) = Some []"
    "nullish (secretAccessKey params) (config_secretAccessKey (credentials cfg)) = Some []"
    using none cred by (simp_all add: nullish_def)
  have pass1: "request_fetch_call P cfg d params \<noteq> Inl (Error ''AWS access key id not specified'')"
    using request_fetch_call_Inl [of P cfg d params "Error ''AWS access key id not specified''"] keys
    by auto
  have pass2: "request_fetch_call P cfg d params \<noteq> Inl (Error ''AWS secret access key not specified'')"
    using request_fetch_call_Inl [of P cfg d params "Error ''AWS secret access key not specified''"] keys
    by auto
  have sends: "\<exists>call host sts.
          request_fetch_call P cfg d params = Inr call
        \<and> signed_fetch_call P params [] [] (toLowerCase (service params)) reg full short = Inr call
        \<and> request P cfg d params w =
            (UrlFetchApp_fetch P (fst call) (snd call), w\<lparr>fetch_calls := fetch_calls w @ [call]\<rparr>)
        \<and> resolve_host (toLowerCase (service params)) reg = Some host
        \<and> map_of (fetch_headers (snd call)) ''Authorization'' =
            Some (HASH_ALGORITHM @ '' Credential='' @ [] @ ''/''
                  @ (short @ ''/'' @ reg @ ''/'' @ toLowerCase (service params) @ ''/aws4_request'')
                  @ '', SignedHeaders=''
                  @ signedHeadersStr
                      (AList.update ''X-Amz-Date'' full
                         (AList.update ''Host'' host
                            (case headers params of Some h \<Rightarrow> h | None \<Rightarrow> [])))
                  @ '', Signature=''
                  @ data_toString
                      (calculateSignature P [] short reg (toLowerCase (service params)) sts))"
    if h: "(case region params of Some r \<Rightarrow> if r \<noteq> [] then Some (toLowerCase r) else config_region cfg
        | None \<Rightarrow> config_region cfg) = Some reg
       \<and> getCanonicalFullDate d = Inr full \<and> getCanonicalShortDate d = Inr short
       \<and> toLowerCase (service params) \<notin> set Object_prototype_names
       \<and> ''hasOwnProperty'' \<notin> fst ` set (case query params of Some q \<Rightarrow> q | None \<Rightarrow> [])"
  proof -
    from h resolve_host_Some obtain host0 where
      "resolve_host (toLowerCase (service params)) reg = Some host0" by blast
    from signed_fetch_call_ok [OF this] h obtain call where
      call: "signed_fetch_call P params [] [] (toLowerCase (service params)) reg full short = Inr call"
      by blast
    have ok: "request_fetch_call P cfg d params = Inr call"
      unfolding request_fetch_call_Inr using keys h call by blast
    have sent: "request P cfg d params w =
            (UrlFetchApp_fetch P (fst call) (snd call), w\<lparr>fetch_calls := fetch_calls w @ [call]\<rparr>)"
      by (simp add: request_unfold ok)
    from signed_fetch_call_headers [OF call]
    obtain host sts where "resolve_host (toLowerCase (service params)) reg = Some host"
      "map_of (fetch_headers (snd call)) ''Authorization'' =
            Some (HASH_ALGORITHM @ '' Credential='' @ [] @ ''/''
                  @ (short @ ''/'' @ reg @ ''/'' @ toLowerCase (service params) @ ''/aws4_request'')
                  @ '', SignedHeaders=''
                  @ signedHeadersStr
                      (AList.update ''X-Amz-Date'' full
                         (AList.update ''Host'' host
                            (case headers params of Some h \<Rightarrow> h | None \<Rightarrow> [])))
                  @ '', Signature=''
                  @ data_toString
                      (calculateSignature P [] short reg (toLowerCase (service params)) sts))"
      by (auto simp: handed_headers)
    with ok call sent show ?thesis by blast
  qed
  from pass1 pass2 sends show ?thesis by blast
qed

theorem request_empty_credentials_witness:
  "\<exists>call.
     request (sample_platform response_200) config sample_date sample_params empty_world
       = (Inr response_200, \<lparr>fetch_calls = [call]\<rparr>)
   \<and> signed_fetch_call (sample_platform response_200) sample_params [] [] ''lambda'' ''us-west-2''
        ''20150830T123600Z'' ''20150830'' = Inr call"
proof -
  have none: "accessKeyId sample_params = None" "secretAccessKey sample_params = None"
    by (simp_all add: sample_params_def)
  have cred: "config_accessKeyId (credentials config) = Some []"
    "config_secretAccessKey (credentials config) = Some []"
    by (simp_all add: config_def)
  have h: "(case region sample_params of Some r \<Rightarrow> if r \<noteq> [] then Some (toLowerCase r) else config_region config
        | None \<Rightarrow> config_region config) = Some ''us-west-2''
       \<and> getCanonicalFullDate sample_date = Inr ''20150830T123600Z''
       \<and> getCanonicalShortDate sample_date = Inr ''20150830''
       \<and> toLowerCase (service sample_params) \<notin> set Object_prototype_names
       \<and> ''hasOwnProperty'' \<notin> fst ` set (case query sample_params of Some q \<Rightarrow> q | None \<Rightarrow> [])"
    using sample_params_no_slip by (simp add: sample_params_lowercase sample_dates)
  from request_empty_credentials [OF none cred, of "sample_platform response_200" sample_date
      "''us-west-2''" "''20150830T123600Z''" "''20150830''" empty_world] h
  obtain call where
    call: "signed_fetch_call (sample_platform response_200) sample_params [] []
        (toLowerCase (service sample_params)) ''us-west-2'' ''20150830T123600Z'' ''20150830'' = Inr call"
    and sent: "request (sample_platform response_200) config sample_date sample_params empty_world =
      (UrlFetchApp_fetch (sample_platform response_200) (fst call) (snd call),
       empty_world\<lparr>fetch_calls := fetch_calls empty_world @ [call]\<rparr>)"
    by blast
  have "UrlFetchApp_fetch (sample_platform response_200) (fst call) (snd call) = Inr response_200"
    by (simp add: sample_platform_def)
  with sent have "request (sample_platform response_200) config sample_date sample_params empty_world
       = (Inr response_200, \<lparr>fetch_calls = [call]\<rparr>)"
    by (simp add: empty_world_def)
  with call show ?thesis unfolding sample_params_lowercase by blast
qed

text \<open>
  C10, as it is worded, fails. With empty strings for the credentials and no region in
  the configuration or among the parameters, the assertion on the region fails; with the
  default configuration, a query with an own key \<open>hasOwnProperty\<close> and a service named
  \<open>constructor\<close> each end in a type error. No call reaches the transport in any of the
  three.
\<close>

theorem request_empty_credentials_counterexample:
  "config_accessKeyId (credentials config) = Some [] \<and> config_secretAccessKey (credentials config) = Some []
   \<and> accessKeyId sample_params = None \<and> secretAccessKey sample_params = None
   \<and> request (sample_platform response_200) (config\<lparr>config_region := None\<rparr>) sample_date
         (sample_params\<lparr>region := None\<rparr>) empty_world
       = (Inl (Error ''AWS region not specified''), empty_world)
   \<and> request (sample_platform response_200) config sample_date
         (sample_params\<lparr>query := Some [(''hasOwnProperty'', QString ''x'')]\<rparr>) empty_world
       = (Inl TypeError, empty_world)
   \<and> request (sample_platform response_200) config sample_date
         (sample_params\<lparr>service := ''Constructor''\<rparr>) empty_world
       = (Inl TypeError, empty_world)"
proof -
  have region: "request_fetch_call (sample_platform response_200) (config\<lparr>config_region := None\<rparr>)
      sample_date (sample_params\<lparr>region := None\<rparr>) = Inl (Error ''AWS region not specified'')"
    by (simp add: request_fetch_call_def assert_def nullish_def config_def sample_params_def)
  have "request_fetch_call (sample_platform response_200) config sample_date
         (sample_params\<lparr>query := Some [(''hasOwnProperty'', QString ''x'')]\<rparr>)
      = signed_fetch_call (sample_platform response_200)
          (sample_params\<lparr>query := Some [(''hasOwnProperty'', QString ''x'')]\<rparr>)
          [] [] ''lambda'' ''us-west-2'' ''20150830T123600Z'' ''20150830''"
    by (simp add: request_fetch_call_def assert_def nullish_def config_def sample_dates
        sample_lowercase sample_params_def)
  also have "\<dots> = Inl TypeError"
    by (rule signed_fetch_call_TypeError) simp
  finally have query: "request_fetch_call (sample_platform response_200) config sample_date
         (sample_params\<lparr>query := Some [(''hasOwnProperty'', QString ''x'')]\<rparr>) = Inl TypeError" .
  have "request_fetch_call (sample_platform response_200) config sample_date
         (sample_params\<lparr>service := ''Constructor''\<rparr>)
      = signed_fetch_call (sample_platform response_200) (sample_params\<lparr>service := ''Constructor''\<rparr>)
          [] [] ''constructor'' ''us-west-2'' ''20150830T123600Z'' ''20150830''"
    by (simp add: request_fetch_call_def assert_def nullish_def config_def sample_dates
        sample_lowercase sample_params_def)
  also have "\<dots> = Inl TypeError"
    by (rule signed_fetch_call_TypeError)
       (simp add: resolve_host_inherited Object_prototype_names_def)
  finally have service: "request_fetch_call (sample_platform response_200) config sample_date
         (sample_params\<lparr>service := ''Constructor''\<rparr>) = Inl TypeError" .
  from region query service show ?thesis
    by (simp add: request_unfold config_def sample_params_def)
qed


section \<open>The function-invocation client\<close>

lemma invoke_result_Inr:
  "invoke_result P response = Inr result \<Longrightarrow>
     200 \<le> StatusCode result \<and> StatusCode result \<le> 299
   \<and> StatusCode result = getResponseCode response
   \<and> ExecutedVersion result = map_of (getAllHeaders response) ''X-Amz-Executed-Version''
   \<and> JSON_parse P (getContentText response) = Some (result_Payload result)"
  unfolding invoke_result_def Let_def
  by (auto split: sum.splits option.splits if_splits)

lemma invoke_result_error:
  assumes "getResponseCode response < 200 \<or> getResponseCode response > 299"
    and "JSON_parse P (getContentText response) = Some j"
    and "map_of (getAllHeaders response) ''X-Amz-Log-Result'' = None"
  shows "invoke_result P response =
     Inl (InvocationError (or_else (optional_property j ''errorMessage'') (optional_property j ''message'')))"
  using assms unfolding invoke_result_def Let_def by auto

lemma invoke_result_ok:
  assumes "200 \<le> getResponseCode response" "getResponseCode response \<le> 299"
    and "JSON_parse P (getContentText response) = Some j"
    and "map_of (getAllHeaders response) ''X-Amz-Log-Result'' = None"
  shows "invoke_result P response =
     Inr \<lparr>StatusCode = getResponseCode response,
          ExecutedVersion = map_of (getAllHeaders response) ''X-Amz-Executed-Version'',
          LogResult = None, result_Payload = j\<rparr>"
  using assms unfolding invoke_result_def Let_def by auto

lemma invoke_result_not_json:
  "JSON_parse P (getContentText response) = None \<Longrightarrow> invoke_result P response = Inl SyntaxError"
  unfolding invoke_result_def Let_def by simp

lemma invoke_Inr:
  assumes "invoke P cfg d params w = (Inr result, w')"
  shows "200 \<le> StatusCode result \<and> StatusCode result \<le> 299"
proof -
  from assms obtain response where "invoke_result P response = Inr result"
    unfolding invoke_def Let_def by (auto split: prod.splits sum.splits)
  then show ?thesis using invoke_result_Inr by blast
qed

lemma invoke_requestParams_fields:
  "accessKeyId (invoke_requestParams P cfg params) = None"
  "secretAccessKey (invoke_requestParams P cfg params) = None"
  "region (invoke_requestParams P cfg params) = None"
  "service (invoke_requestParams P cfg params) = ''lambda''"
  unfolding invoke_requestParams_def Let_def by simp_all

lemma sample_invoke_request:
  "\<exists>w'. request (sample_platform r) config sample_date
           (invoke_requestParams (sample_platform r) config params) w = (Inr r, w')"
proof -
  have "''lambda'' \<notin> set Object_prototype_names"
    by (simp add: Object_prototype_names_def)
  from resolve_host_Some [OF this, of "''us-west-1''"]
  obtain host where host: "resolve_host ''lambda'' ''us-west-1'' = Some host" ..
  have "''hasOwnProperty'' \<notin> fst ` set (case query (invoke_requestParams (sample_platform r) config params)
      of Some q \<Rightarrow> q | None \<Rightarrow> [])"
    unfolding invoke_requestParams_def Let_def
    by (auto simp: AList.update.simps split: option.splits if_splits)
  from signed_fetch_call_ok [OF host this]
  obtain call where "signed_fetch_call (sample_platform r)
      (invoke_requestParams (sample_platform r) config params) [] [] ''lambda'' ''us-west-1''
      ''20150830T123600Z'' ''20150830'' = Inr call" by blast
  then have "\<exists>call. request_fetch_call (sample_platform r) config sample_date
           (invoke_requestParams (sample_platform r) config params) = Inr call"
    unfolding request_fetch_call_Inr
    by (simp add: invoke_requestParams_fields nullish_def config_def sample_dates sample_lowercase)
  then show ?thesis
    unfolding request_unfold by (auto simp: sample_platform_def)
qed

lemma sample_invoke:
  "fst (invoke (sample_platform r) config sample_date params w) = invoke_result (sample_platform r) r"
  using sample_invoke_request [of r params w] unfolding invoke_def Let_def by auto

lemma invoke_not_found:
  "fst (invoke (sample_platform response_404) config sample_date sample_invoke_params empty_world)
     = Inl (InvocationError (Some (JString ''not found'')))"
proof -
  have "JSON_parse (sample_platform response_404) (getContentText response_404)
      = Some (JObject [(''errorMessage'', JString ''not found'')])"
    by (simp add: sample_platform_def response_404_def sample_parse_def)
  from invoke_result_error [OF _ this] show ?thesis
    unfolding sample_invoke by (simp add: response_404_def or_else_def)
qed

text \<open>
  C6. A result is returned only for a status from 200 to 299 (\<open>invoke_result_Inr\<close>), and
  for a JSON body a status outside carries the \<open>errorMessage\<close> of the body
  (\<open>invoke_result_error\<close>, \<open>invoke_not_found\<close>). But the body is parsed before the status is
  looked at: the answer to an \<open>Event\<close> invocation, status 202 and no body, makes \<open>invoke\<close>
  fail with the syntax error of \<open>JSON.parse\<close>, where a result with the status 202 is due.
\<close>

theorem invoke_event_empty_body:
  "InvocationType sample_invoke_params = Some Event
   \<and> getResponseCode response_202 = 202 \<and> getContentText response_202 = []
   \<and> fst (invoke (sample_platform response_202) config sample_date sample_invoke_params empty_world)
       = Inl SyntaxError"
proof -
  have "JSON_parse (sample_platform response_202) (getContentText response_202) = None"
    by (simp add: sample_platform_def response_202_def sample_parse_def)
  then have "invoke_result (sample_platform response_202) response_202 = Inl SyntaxError"
    by (rule invoke_result_not_json)
  then show ?thesis
    unfolding sample_invoke by (simp add: response_202_def sample_invoke_params_def)
qed

end
